theory Spec2Isabelle
  imports Main
begin

section \<open>JavaScript values as the button component sees them\<close>

text \<open>
  The component \<^verbatim>\<open>SendToDyadButton\<close> reads opaque records out of browser storage and
  inspects them dynamically (\<^verbatim>\<open>typeof\<close>, \<^verbatim>\<open>Array.isArray\<close>, property reads,
  \<^verbatim>\<open>Object.keys\<close>). A record is therefore a value of the untyped universe below.

  \<^item> A heap object carries its identity (its address) next to its body, so that
    "the function returns this very object" is an equation between values: a copy of
    an object is a value with another address.
  \<^item> The property list of a plain object is kept in enumeration order, the order in
    which \<^verbatim>\<open>Object.keys\<close> lists it; its keys are pairwise distinct.
  \<^item> An array keeps its elements and the named properties it carries besides them (an
    array is an object, and \<^verbatim>\<open>Object.keys\<close> lists both, the elements first).
  \<^item> Strings are lists of code units, numbers are integers (no claim computes with a
    number).
  \<^item> A view on a binary buffer keeps the bytes of the whole underlying buffer and
    the elements the view itself exposes. A buffer and a view are taken as structured
    cloning delivers them, without named properties of their own.
\<close>

datatype jsval =
    JUndefined
  | JNull
  | JBool bool
  | JNum int
  | JStr string
  | JObject nat jsbody
and jsbody =
    Plain "(string \<times> jsval) list"
  | Arr "jsval list" "(string \<times> jsval) list"
  | Buf "nat list"
  | View "nat list" "nat list"

datatype jstype = TUndefined | TObject | TBoolean | TNumber | TString

fun typeof :: "jsval \<Rightarrow> jstype" where
  "typeof JUndefined = TUndefined"
| "typeof JNull = TObject"
| "typeof (JBool b) = TBoolean"
| "typeof (JNum n) = TNumber"
| "typeof (JStr s) = TString"
| "typeof (JObject a b) = TObject"

text \<open>Truthiness, as \<^verbatim>\<open>!x\<close>, \<^verbatim>\<open>x && y\<close> and \<^verbatim>\<open>x || y\<close> test it.\<close>

fun truthy :: "jsval \<Rightarrow> bool" where
  "truthy JUndefined = False"
| "truthy JNull = False"
| "truthy (JBool b) = b"
| "truthy (JNum n) = (n \<noteq> 0)"
| "truthy (JStr s) = (s \<noteq> [])"
| "truthy (JObject a b) = True"

text \<open>\<^verbatim>\<open>x == null\<close>, also the test of the \<^verbatim>\<open>??\<close> operator.\<close>

fun nullish :: "jsval \<Rightarrow> bool" where
  "nullish JUndefined = True"
| "nullish JNull = True"
| "nullish v = False"

definition coalesce :: "jsval \<Rightarrow> jsval \<Rightarrow> jsval" where
  "coalesce a b = (if nullish a then b else a)"

fun isArray :: "jsval \<Rightarrow> bool" where
  "isArray (JObject a (Arr xs ps)) = True"
| "isArray v = False"

fun isArrayBuffer :: "jsval \<Rightarrow> bool" where
  "isArrayBuffer (JObject a (Buf bs)) = True"
| "isArrayBuffer v = False"

fun isView :: "jsval \<Rightarrow> bool" where
  "isView (JObject a (View buf es)) = True"
| "isView v = False"

text \<open>The bytes of \<^verbatim>\<open>new Uint8Array(val)\<close> for a buffer and of
  \<^verbatim>\<open>new Uint8Array(val.buffer || val)\<close> for a view: the whole underlying buffer.\<close>

fun buffer_bytes :: "jsval \<Rightarrow> nat list" where
  "buffer_bytes (JObject a (Buf bs)) = bs"
| "buffer_bytes (JObject a (View buf es)) = buf"
| "buffer_bytes v = []"

subsection \<open>Decimal index keys\<close>

definition digit_char :: "nat \<Rightarrow> char" where
  "digit_char d = ''0123456789'' ! d"

fun string_of_nat :: "nat \<Rightarrow> string" where
  "string_of_nat n =
     (if n < 10 then [digit_char n] else string_of_nat (n div 10) @ [digit_char (n mod 10)])"

declare string_of_nat.simps [simp del]

definition index_keys :: "nat \<Rightarrow> string list" where
  "index_keys n = map string_of_nat [0..<n]"

subsection \<open>Own enumerable properties\<close>

text \<open>
  The own enumerable string-keyed properties of a value in enumeration order: what
  \<^verbatim>\<open>Object.keys\<close> and \<^verbatim>\<open>Object.assign\<close> walk over. Arrays, typed-array views and
  strings expose their elements under decimal index keys, an array its named properties
  after them; a bare buffer, a number and a boolean expose nothing.
\<close>

fun own_props :: "jsval \<Rightarrow> (string \<times> jsval) list" where
  "own_props (JObject a (Plain kvs)) = kvs"
| "own_props (JObject a (Arr xs ps)) = zip (index_keys (length xs)) xs @ ps"
| "own_props (JObject a (View buf es)) =
     zip (index_keys (length es)) (map (\<lambda>n. JNum (int n)) es)"
| "own_props (JObject a (Buf bs)) = []"
| "own_props (JStr s) = zip (index_keys (length s)) (map (\<lambda>c. JStr [c]) s)"
| "own_props v = []"

definition own_keys :: "jsval \<Rightarrow> string list" where
  "own_keys v = map fst (own_props v)"

text \<open>
  A property read \<^verbatim>\<open>v.k\<close> or \<^verbatim>\<open>v[k]\<close> on a value that is neither \<^verbatim>\<open>null\<close> nor
  \<^verbatim>\<open>undefined\<close>. The component reads only the names \<^verbatim>\<open>files\<close>, \<^verbatim>\<open>snapshot\<close>,
  \<^verbatim>\<open>data\<close>, \<^verbatim>\<open>payload\<close>, \<^verbatim>\<open>path\<close>, \<^verbatim>\<open>content\<close>, \<^verbatim>\<open>text\<close>, \<^verbatim>\<open>vfs\<close>,
  \<^verbatim>\<open>fs\<close>, \<^verbatim>\<open>state\<close>, \<^verbatim>\<open>_internal\<close> and keys that \<^verbatim>\<open>Object.keys\<close> has
  listed; none of them is an inherited property, so the read is a lookup among the own
  properties and yields \<^verbatim>\<open>undefined\<close> when the key is absent.
\<close>

definition get_prop :: "jsval \<Rightarrow> string \<Rightarrow> jsval" where
  "get_prop v k = (case map_of (own_props v) k of Some x \<Rightarrow> x | None \<Rightarrow> JUndefined)"

subsection \<open>String tests\<close>

fun startsWith :: "string \<Rightarrow> string \<Rightarrow> bool" where
  "startsWith s [] = True"
| "startsWith [] (p # ps) = False"
| "startsWith (c # cs) (p # ps) = (c = p \<and> startsWith cs ps)"

definition endsWith :: "string \<Rightarrow> string \<Rightarrow> bool" where
  "endsWith s p = startsWith (rev s) (rev p)"

text \<open>\<^verbatim>\<open>s.includes(p)\<close>: \<open>p\<close> occurs in \<open>s\<close> as a contiguous substring.\<close>

fun includes_str :: "string \<Rightarrow> string \<Rightarrow> bool" where
  "includes_str [] p = (p = [])"
| "includes_str (c # cs) p = (startsWith (c # cs) p \<or> includes_str cs p)"

text \<open>\<^verbatim>\<open>p.replace(/^\//, '')\<close>: drop one leading separator.\<close>

fun stripLeadingSlash :: "string \<Rightarrow> string" where
  "stripLeadingSlash [] = []"
| "stripLeadingSlash (c # cs) = (if c = CHR ''/'' then cs else c # cs)"

section \<open>Platform functions\<close>

text \<open>
  Built-ins of the JavaScript engine that the component calls and whose result no
  claim looks into are parameters of the model:
  \<^item> \<open>btoa_bytes bs\<close> is \<^verbatim>\<open>btoa(String.fromCharCode(...bs))\<close>,
  \<^item> \<open>json_stringify v\<close> is \<^verbatim>\<open>JSON.stringify(v)\<close>,
  \<^item> \<open>to_string v\<close> is \<^verbatim>\<open>String(v)\<close>, also the conversion of a non-string value
    used as a property key,
  \<^item> \<open>binary_inherited u k\<close> is what an assignment \<^verbatim>\<open>o[k] = v\<close> finds for the key
    \<open>k\<close> when the prototype of \<open>o\<close> is the buffer or view \<open>u\<close>, which does not own
    \<open>k\<close>: what the built-in prototypes of buffers and views hold under \<open>k\<close>.

  An assignment finds, for a key the object does not own, one of four things on the
  prototype chain: nothing or a writable property (\<open>NotFound\<close>), the accessor
  \<^verbatim>\<open>__proto__\<close> (\<open>ProtoSetter\<close>), a property that cannot be assigned, such as
  \<^verbatim>\<open>byteLength\<close> (\<open>ReadOnly\<close>), or a view that refuses the key silently, as for an
  index out of its range (\<open>Ignored\<close>).
\<close>

datatype inherited = NotFound | ProtoSetter | ReadOnly | Ignored

record platform =
  btoa_bytes :: "nat list \<Rightarrow> string"
  json_stringify :: "jsval \<Rightarrow> jsval"
  to_string :: "jsval \<Rightarrow> string"
  binary_inherited :: "jsval \<Rightarrow> string \<Rightarrow> inherited"

section \<open>Content normalization\<close>

definition normalizeContent :: "platform \<Rightarrow> jsval \<Rightarrow> jsval" where
  "normalizeContent P val =
     (if nullish val then JStr ''''
      else if typeof val = TString then val
      else if isArrayBuffer val then JStr (''__base64:'' @ btoa_bytes P (buffer_bytes val))
      else if isView val then JStr (''__base64:'' @ btoa_bytes P (buffer_bytes val))
      else if typeof val = TObject then
        coalesce (get_prop val ''content'')
          (coalesce (get_prop val ''text'')
            (coalesce (get_prop val ''data'') (json_stringify P val)))
      else JStr (to_string P val))"

section \<open>Files-map extraction\<close>

text \<open>The test on the first key that lets a record count as a files map itself.\<close>

definition looksLikeProjectKey :: "string \<Rightarrow> bool" where
  "looksLikeProjectKey k =
     (startsWith k ''/home/project'' \<or> startsWith k ''home/project'' \<or> startsWith k ''src''
      \<or> startsWith k ''public'' \<or> includes_str k ''index.html'')"

text \<open>\<^verbatim>\<open>x && typeof x === 'object' && !Array.isArray(x)\<close>\<close>

definition isFilesObject :: "jsval \<Rightarrow> bool" where
  "isFilesObject x = (truthy x \<and> typeof x = TObject \<and> \<not> isArray x)"

definition extractFilesMap :: "jsval \<Rightarrow> jsval option" where
  "extractFilesMap candidate =
     (if \<not> truthy candidate \<or> typeof candidate \<noteq> TObject then None
      else if isFilesObject (get_prop candidate ''files'') then Some (get_prop candidate ''files'')
      else if truthy (get_prop candidate ''snapshot'')
              \<and> isFilesObject (get_prop (get_prop candidate ''snapshot'') ''files'')
        then Some (get_prop (get_prop candidate ''snapshot'') ''files'')
      else (case own_keys candidate of
              [] \<Rightarrow> None
            | k0 # ks \<Rightarrow> if looksLikeProjectKey k0 then Some candidate else None))"

section \<open>Selection heuristic\<close>

definition PREFERRED_PREFIXES :: "string list" where
  "PREFERRED_PREFIXES =
     [''/home/project'', ''home/project'', ''/project'', ''project'', ''src/'', ''public/'',
      ''/client'', ''/server'', ''client/'', ''server/'']"

definition PREFERRED_ROOT_FILES :: "string list" where
  "PREFERRED_ROOT_FILES =
     [''package.json'', ''/home/project/package.json'', ''vite.config.ts'', ''vite.config.js'',
      ''tsconfig.json'', ''tsconfig.node.json'', ''postcss.config.js'', ''tailwind.config.js'',
      ''index.html'']"

definition keyVariants :: "string \<Rightarrow> string list" where
  "keyVariants p =
     (if p = [] then [p]
      else if startsWith p ''/'' then [p, stripLeadingSlash p]
      else [p, ''/'' @ p])"

text \<open>One element of the result array: \<^verbatim>\<open>{ path: k, content: normalizeContent(filesMap[k]) }\<close>.\<close>

record file_entry =
  path :: string
  content :: jsval

definition entryOf :: "platform \<Rightarrow> jsval \<Rightarrow> string \<Rightarrow> file_entry" where
  "entryOf P filesMap k = \<lparr>path = k, content = normalizeContent P (get_prop filesMap k)\<rparr>"

text \<open>Tier 1: the body of the inner loop, the inner loop over the spellings of one
  path, and the outer loop over the created paths.\<close>

definition pushCreated :: "string list \<Rightarrow> string list \<Rightarrow> string \<Rightarrow> string list" where
  "pushCreated keys normalizedCreated v =
     (if v \<in> set keys \<and> v \<notin> set normalizedCreated
      then normalizedCreated @ [v] else normalizedCreated)"

definition normalizedCreatedOf :: "string list \<Rightarrow> string list \<Rightarrow> string list" where
  "normalizedCreatedOf keys createdPaths =
     foldl (\<lambda>nc p. foldl (pushCreated keys) nc (keyVariants p)) [] createdPaths"

text \<open>Tier 2: \<open>chosen\<close> is a \<^verbatim>\<open>Set\<close>, which keeps insertion order and ignores a
  second \<^verbatim>\<open>add\<close> of a member.\<close>

definition set_add :: "string list \<Rightarrow> string \<Rightarrow> string list" where
  "set_add chosen k = (if k \<in> set chosen then chosen else chosen @ [k])"

definition prefixMatch :: "string \<Rightarrow> string \<Rightarrow> bool" where
  "prefixMatch k pref = (startsWith k pref \<or> startsWith k (stripLeadingSlash pref))"

definition rootMatch :: "string \<Rightarrow> string \<Rightarrow> bool" where
  "rootMatch k root = (endsWith k root \<or> k = root \<or> k = ''/'' @ root)"

definition chosenStep :: "string list \<Rightarrow> string \<Rightarrow> string list" where
  "chosenStep chosen k =
     foldl (\<lambda>c root. if rootMatch k root then set_add c k else c)
       (foldl (\<lambda>c pref. if prefixMatch k pref then set_add c k else c) chosen PREFERRED_PREFIXES)
       PREFERRED_ROOT_FILES"

definition chosenOf :: "string list \<Rightarrow> string list" where
  "chosenOf keys = foldl chosenStep [] keys"

text \<open>Tier 3: the test of
  \<^verbatim>\<open>/src\/|public\/|index\.html|package\.json|vite\.config/\<close>, an unanchored alternation
  of literal strings.\<close>

definition fallbackPattern :: "string \<Rightarrow> bool" where
  "fallbackPattern k =
     (includes_str k ''src/'' \<or> includes_str k ''public/'' \<or> includes_str k ''index.html''
      \<or> includes_str k ''package.json'' \<or> includes_str k ''vite.config'')"

definition chooseFilesFromMap :: "platform \<Rightarrow> jsval \<Rightarrow> string list \<Rightarrow> file_entry list" where
  "chooseFilesFromMap P filesMap createdPaths =
     (if \<not> truthy filesMap then []
      else
        let keys = own_keys filesMap;
            normalizedCreated = normalizedCreatedOf keys createdPaths
        in if normalizedCreated \<noteq> [] then map (entryOf P filesMap) normalizedCreated
           else
             let chosen = chosenOf keys
             in if chosen \<noteq> [] then map (entryOf P filesMap) chosen
                else
                  let fallback = filter fallbackPattern keys
                  in if fallback \<noteq> [] then map (entryOf P filesMap) fallback
                     else map (entryOf P filesMap) (take 5000 keys))"

section \<open>Deduplication of the aggregated candidates\<close>

text \<open>\<^verbatim>\<open>xs.join(',')\<close> on an array of strings.\<close>

fun join_comma :: "string list \<Rightarrow> string" where
  "join_comma [] = []"
| "join_comma [x] = x"
| "join_comma (x # y # ys) = x @ '','' @ join_comma (y # ys)"

text \<open>\<^verbatim>\<open>Object.keys(m).slice(0, 10).join(',')\<close>\<close>

definition signature :: "jsval \<Rightarrow> string" where
  "signature m = join_comma (take 10 (own_keys m))"

text \<open>The loop state is the pair of \<open>seenSignatures\<close> and \<open>unique\<close>.\<close>

definition dedupeStep :: "string list \<times> jsval list \<Rightarrow> jsval \<Rightarrow> string list \<times> jsval list" where
  "dedupeStep st m =
     (let keys = signature m
      in if keys \<notin> set (fst st) then (fst st @ [keys], snd st @ [m]) else st)"

definition dedupeMaps :: "jsval list \<Rightarrow> jsval list" where
  "dedupeMaps maps = snd (foldl dedupeStep ([], []) maps)"

section \<open>Errors\<close>

text \<open>The exceptions the component can meet: a property read on \<^verbatim>\<open>null\<close> or
  \<^verbatim>\<open>undefined\<close>, and a rejected \<^verbatim>\<open>fetch\<close>.\<close>

datatype error = TypeError | NetworkError

text \<open>A property read that throws on \<^verbatim>\<open>null\<close> and \<^verbatim>\<open>undefined\<close>.\<close>

definition read_prop :: "jsval \<Rightarrow> string \<Rightarrow> error + jsval" where
  "read_prop v k = (if nullish v then Inl TypeError else Inr (get_prop v k))"

section \<open>Building objects\<close>

text \<open>
  The component creates objects with \<^verbatim>\<open>{}\<close> and fills them by assignment
  (\<^verbatim>\<open>map[k] = v\<close>, \<^verbatim>\<open>Object.assign(merged, m)\<close>; the module is strict code, and so is
  \<^verbatim>\<open>Object.assign\<close>). An object under construction is its list of own properties
  together with its prototype: \<^verbatim>\<open>Object.prototype\<close> at first, later perhaps
  \<^verbatim>\<open>null\<close> or a value, since an assignment to the key \<^verbatim>\<open>__proto__\<close> can replace it.
  Values that come out of storage have the prototype the language gives them, and the
  built-in prototypes are as the language defines them.

  An assignment to a key the object owns keeps the key's place and replaces its value.
  For a key the object does not own, the assignment looks the key up along the prototype
  chain:
  \<^item> nothing, or a writable property, is found: the object gets a new own property. A new
    key goes to the end of the enumeration order, unless it is an array index (a
    canonical decimal numeral below \<open>2\<^sup>3\<^sup>2 - 1\<close>): index keys come first, in
    ascending numeric order;
  \<^item> the accessor \<^verbatim>\<open>__proto__\<close> of \<^verbatim>\<open>Object.prototype\<close> is found: its setter makes
    the assigned value the new prototype if that value is an object or \<^verbatim>\<open>null\<close>,
    and does nothing otherwise; no own property arises;
  \<^item> a property that cannot be assigned is found: the assignment throws;
  \<^item> the prototype is a view that refuses the key silently: nothing happens.
\<close>

datatype proto = StdProto | NullProto | ObjProto jsval

definition inherited_of :: "platform \<Rightarrow> proto \<Rightarrow> string \<Rightarrow> inherited" where
  "inherited_of P pr k =
     (case pr of
        NullProto \<Rightarrow> NotFound
      | StdProto \<Rightarrow> if k = ''__proto__'' then ProtoSetter else NotFound
      | ObjProto u \<Rightarrow>
          if k \<in> set (own_keys u) then NotFound
          else if isArrayBuffer u \<or> isView u then binary_inherited P u k
          else if k = ''__proto__'' then ProtoSetter else NotFound)"

text \<open>The setter of \<^verbatim>\<open>__proto__\<close>.\<close>

definition proto_after :: "proto \<Rightarrow> jsval \<Rightarrow> proto" where
  "proto_after pr v =
     (if v = JNull then NullProto else if typeof v = TObject then ObjProto v else pr)"

definition is_digit :: "char \<Rightarrow> bool" where
  "is_digit c = (c \<in> set ''0123456789'')"

definition digits_value :: "string \<Rightarrow> int" where
  "digits_value k = foldl (\<lambda>n c. 10 * n + (of_char c - 48)) 0 k"

definition array_index :: "string \<Rightarrow> int option" where
  "array_index k =
     (if k \<noteq> [] \<and> list_all is_digit k \<and> (k = ''0'' \<or> hd k \<noteq> CHR ''0'')
         \<and> digits_value k < 4294967295
      then Some (digits_value k) else None)"

fun insert_index :: "int \<Rightarrow> string \<Rightarrow> jsval \<Rightarrow> (string \<times> jsval) list \<Rightarrow> (string \<times> jsval) list" where
  "insert_index i k v [] = [(k, v)]"
| "insert_index i k v ((k', v') # rest) =
     (case array_index k' of
        Some j \<Rightarrow> if j < i then (k', v') # insert_index i k v rest else (k, v) # (k', v') # rest
      | None \<Rightarrow> (k, v) # (k', v') # rest)"

text \<open>A new own property.\<close>

definition add_own :: "(string \<times> jsval) list \<Rightarrow> string \<Rightarrow> jsval \<Rightarrow> (string \<times> jsval) list" where
  "add_own kvs k v =
     (case array_index k of None \<Rightarrow> kvs @ [(k, v)] | Some i \<Rightarrow> insert_index i k v kvs)"

text \<open>The assignment \<^verbatim>\<open>o[k] = v\<close> to an object under construction.\<close>

definition obj_set :: "platform \<Rightarrow> (string \<times> jsval) list \<times> proto \<Rightarrow> string \<Rightarrow> jsval
    \<Rightarrow> error + (string \<times> jsval) list \<times> proto" where
  "obj_set P ob k v =
     (if k \<in> set (map fst (fst ob))
      then Inr (map (\<lambda>kv. if fst kv = k then (k, v) else kv) (fst ob), snd ob)
      else case inherited_of P (snd ob) k of
             NotFound \<Rightarrow> Inr (add_own (fst ob) k v, snd ob)
           | ProtoSetter \<Rightarrow> Inr (fst ob, proto_after (snd ob) v)
           | ReadOnly \<Rightarrow> Inl TypeError
           | Ignored \<Rightarrow> Inr ob)"

text \<open>\<^verbatim>\<open>Object.assign(target, m)\<close>: the own enumerable properties of \<open>m\<close> are assigned to
  the target one after the other; an assignment that throws ends it.\<close>

fun assign_props :: "platform \<Rightarrow> (string \<times> jsval) list \<times> proto \<Rightarrow> (string \<times> jsval) list
    \<Rightarrow> error + (string \<times> jsval) list \<times> proto" where
  "assign_props P ob [] = Inr ob"
| "assign_props P ob (kv # rest) =
     (case obj_set P ob (fst kv) (snd kv) of
        Inl e \<Rightarrow> Inl e
      | Inr ob1 \<Rightarrow> assign_props P ob1 rest)"

definition object_assign :: "platform \<Rightarrow> (string \<times> jsval) list \<times> proto \<Rightarrow> jsval
    \<Rightarrow> error + (string \<times> jsval) list \<times> proto" where
  "object_assign P target m = assign_props P target (own_props m)"

section \<open>Candidate aggregation\<close>

text \<open>
  The state of the browser at the time of one sweep. \<open>boltHistory\<close> is what
  \<^verbatim>\<open>openDB('boltHistory')\<close> resolves to: nothing, or the database, given by the
  records of each object store it has (what \<^verbatim>\<open>getAll\<close> yields; a failed read yields
  the empty list). The three globals are \<^verbatim>\<open>window.__workbench__\<close>,
  \<^verbatim>\<open>window.workbenchStore\<close> (which \<^verbatim>\<open>window.window?.workbenchStore\<close> reads again)
  and \<^verbatim>\<open>window.workbench\<close>.
\<close>

record stores =
  boltHistory :: "(string \<rightharpoonup> jsval list) option"
  g_workbench_dunder :: jsval
  g_workbenchStore :: jsval
  g_workbench :: jsval

text \<open>\<open>readObjectStoreAll('boltHistory', storeName)\<close>, also \<open>getSnapshotsEntries\<close> for the
  store \<^verbatim>\<open>snapshots\<close>.\<close>

definition readObjectStoreAll :: "stores \<Rightarrow> string \<Rightarrow> jsval list" where
  "readObjectStoreAll S storeName =
     (case boltHistory S of
        None \<Rightarrow> []
      | Some db \<Rightarrow> (case db storeName of None \<Rightarrow> [] | Some records \<Rightarrow> records))"

definition getSnapshotsEntries :: "stores \<Rightarrow> jsval list" where
  "getSnapshotsEntries S = readObjectStoreAll S ''snapshots''"

text \<open>A value used as a property key.\<close>

definition to_key :: "platform \<Rightarrow> jsval \<Rightarrow> string" where
  "to_key P v = (case v of JStr s \<Rightarrow> s | _ \<Rightarrow> to_string P v)"

text \<open>
  \<^verbatim>\<open>const map = {}; for (const item of xs) map[item.path] = item.content ?? item.data ?? item;\<close>
  on \<open>map\<close> as an object under construction. An item that is \<^verbatim>\<open>null\<close> or
  \<^verbatim>\<open>undefined\<close> throws, and so does an assignment that throws.
\<close>

fun collapseInto :: "platform \<Rightarrow> (string \<times> jsval) list \<times> proto \<Rightarrow> jsval list
    \<Rightarrow> error + (string \<times> jsval) list \<times> proto" where
  "collapseInto P acc [] = Inr acc"
| "collapseInto P acc (item # items) =
     (if nullish item then Inl TypeError
      else
        (case obj_set P acc (to_key P (get_prop item ''path''))
                (coalesce (get_prop item ''content'') (coalesce (get_prop item ''data'') item)) of
           Inl e \<Rightarrow> Inl e
         | Inr acc1 \<Rightarrow> collapseInto P acc1 items))"

text \<open>The new object gets the address \<open>a\<close>. Once it is built, only its own properties
  are read, so its prototype is dropped.\<close>

definition collapseEntries :: "platform \<Rightarrow> nat \<Rightarrow> jsval list \<Rightarrow> error + jsval" where
  "collapseEntries P a xs =
     (case collapseInto P ([], StdProto) xs of
        Inl e \<Rightarrow> Inl e
      | Inr ob \<Rightarrow> Inr (JObject a (Plain (fst ob))))"

text \<open>\<^verbatim>\<open>for (const x of xs) { const m = extractFilesMap(x); if (m) maps.push(m); }\<close>\<close>

definition pushExtracted :: "jsval list \<Rightarrow> jsval list \<Rightarrow> jsval list" where
  "pushExtracted maps xs = maps @ List.map_filter extractFilesMap xs"

text \<open>Step 1, one snapshot record:
  \<^verbatim>\<open>extractFilesMap(s) || extractFilesMap(s.snapshot) || extractFilesMap(s.data) || extractFilesMap(s.payload)\<close>.
  The reads of \<open>s.snapshot\<close> and the following ones happen only when \<open>extractFilesMap(s)\<close>
  is \<^verbatim>\<open>null\<close>, and throw when \<open>s\<close> is \<^verbatim>\<open>null\<close> or \<^verbatim>\<open>undefined\<close>.\<close>

definition snapshotCandidate :: "jsval \<Rightarrow> error + jsval option" where
  "snapshotCandidate s =
     (case extractFilesMap s of
        Some c \<Rightarrow> Inr (Some c)
      | None \<Rightarrow>
          if nullish s then Inl TypeError
          else
            (case extractFilesMap (get_prop s ''snapshot'') of
               Some c \<Rightarrow> Inr (Some c)
             | None \<Rightarrow>
                 (case extractFilesMap (get_prop s ''data'') of
                    Some c \<Rightarrow> Inr (Some c)
                  | None \<Rightarrow> Inr (extractFilesMap (get_prop s ''payload'')))))"

fun gatherSnapshots :: "jsval list \<Rightarrow> jsval list \<Rightarrow> error + jsval list" where
  "gatherSnapshots maps [] = Inr maps"
| "gatherSnapshots maps (s # snaps) =
     (case snapshotCandidate s of
        Inl e \<Rightarrow> Inl e
      | Inr None \<Rightarrow> gatherSnapshots maps snaps
      | Inr (Some cand) \<Rightarrow> gatherSnapshots (maps @ [cand]) snaps)"

text \<open>
  Step 2, the store \<^verbatim>\<open>files\<close>: \<open>f\<close> is the array that \<^verbatim>\<open>getAll\<close> yields, so the
  branch \<^verbatim>\<open>else if (f && typeof f === 'object' && !Array.isArray(f))\<close> is never taken
  and has no counterpart here. The test \<^verbatim>\<open>f[0].path\<close> throws when \<open>f[0]\<close> is
  \<^verbatim>\<open>null\<close> or \<^verbatim>\<open>undefined\<close>. The result is the array \<open>maps\<close> and the next free
  address.
\<close>

definition gatherFilesStore :: "platform \<Rightarrow> jsval list \<Rightarrow> nat \<Rightarrow> jsval list \<Rightarrow> error + (jsval list \<times> nat)" where
  "gatherFilesStore P maps a f =
     (case f of
        [] \<Rightarrow> Inr (maps, a)
      | f0 # rest \<Rightarrow>
          (case read_prop f0 ''path'' of
             Inl e \<Rightarrow> Inl e
           | Inr p \<Rightarrow>
               if truthy p then
                 (case collapseEntries P a f of
                    Inl e \<Rightarrow> Inl e
                  | Inr m \<Rightarrow> Inr (maps @ [m], Suc a))
               else Inr (maps, a)))"

text \<open>Step 2 as a whole: nothing happens unless the database opens; each of the two
  stores is read only if the database has it.\<close>

definition gatherTopLevel :: "platform \<Rightarrow> stores \<Rightarrow> jsval list \<Rightarrow> nat \<Rightarrow> error + (jsval list \<times> nat)" where
  "gatherTopLevel P S maps a =
     (case boltHistory S of
        None \<Rightarrow> Inr (maps, a)
      | Some db \<Rightarrow>
          (case (case db ''files'' of
                   None \<Rightarrow> Inr (maps, a)
                 | Some f \<Rightarrow> gatherFilesStore P maps a f) of
             Inl e \<Rightarrow> Inl e
           | Inr (maps1, a1) \<Rightarrow>
               (case db ''workspace'' of
                  None \<Rightarrow> Inr (maps1, a1)
                | Some w \<Rightarrow> Inr (pushExtracted maps1 w, a1))))"

text \<open>Step 3, the store \<^verbatim>\<open>boltFiles\<close>: here the first element is tested with
  \<^verbatim>\<open>other[0] && other[0].path\<close>, which does not throw.\<close>

definition gatherBoltFiles :: "platform \<Rightarrow> jsval list \<Rightarrow> nat \<Rightarrow> jsval list \<Rightarrow> error + (jsval list \<times> nat)" where
  "gatherBoltFiles P maps a other =
     (case other of
        [] \<Rightarrow> Inr (maps, a)
      | o0 # rest \<Rightarrow>
          if truthy o0 \<and> truthy (get_prop o0 ''path'') then
            (case collapseEntries P a other of
               Inl e \<Rightarrow> Inl e
             | Inr m \<Rightarrow> Inr (maps @ [m], Suc a))
          else Inr (pushExtracted maps other, a))"

text \<open>
  Step 4, the in-memory workbench. The whole step runs inside \<^verbatim>\<open>try { } catch { }\<close>:
  an exception ends the step and keeps what \<open>maps\<close> holds by then.
\<close>

definition workbenchGlobal :: "stores \<Rightarrow> jsval" where
  "workbenchGlobal S =
     (if truthy (g_workbench_dunder S) then g_workbench_dunder S
      else if truthy (g_workbenchStore S) then g_workbenchStore S
      else if truthy (g_workbenchStore S) then g_workbenchStore S
      else if truthy (g_workbench S) then g_workbench S
      else JNull)"

fun array_items :: "jsval \<Rightarrow> jsval list option" where
  "array_items (JObject a (Arr xs ps)) = Some xs"
| "array_items v = None"

fun gatherWorkbench :: "platform \<Rightarrow> jsval list \<Rightarrow> nat \<Rightarrow> jsval list \<Rightarrow> jsval list \<times> nat" where
  "gatherWorkbench P maps a [] = (maps, a)"
| "gatherWorkbench P maps a (c # cs) =
     (let maps1 = (case extractFilesMap c of None \<Rightarrow> maps | Some m \<Rightarrow> maps @ [m])
      in case array_items c of
           None \<Rightarrow> gatherWorkbench P maps1 a cs
         | Some [] \<Rightarrow> gatherWorkbench P maps1 a cs
         | Some (c0 # rest) \<Rightarrow>
             (case read_prop c0 ''path'' of
                Inl e \<Rightarrow> (maps1, a)
              | Inr p \<Rightarrow>
                  if truthy p then
                    (case collapseEntries P a (c0 # rest) of
                       Inl e \<Rightarrow> (maps1, a)
                     | Inr m \<Rightarrow> gatherWorkbench P (maps1 @ [m]) (Suc a) cs)
                  else gatherWorkbench P maps1 a cs))"

definition workbenchFields :: "jsval \<Rightarrow> jsval list" where
  "workbenchFields wb =
     map (get_prop wb) [''files'', ''vfs'', ''fs'', ''snapshot'', ''state'', ''_internal'']"

definition gatherFromWorkbench :: "platform \<Rightarrow> stores \<Rightarrow> jsval list \<Rightarrow> nat \<Rightarrow> jsval list \<times> nat" where
  "gatherFromWorkbench P S maps a =
     (let wb = workbenchGlobal S
      in if truthy wb then gatherWorkbench P maps a (workbenchFields wb) else (maps, a))"

text \<open>The whole sweep: steps 1 to 4, then the deduplication. \<open>a\<close> is the next free
  address; the result carries the next free address after the sweep.\<close>

definition gatherFilesMaps :: "platform \<Rightarrow> stores \<Rightarrow> nat \<Rightarrow> error + (jsval list \<times> nat)" where
  "gatherFilesMaps P S a =
     (case gatherSnapshots [] (getSnapshotsEntries S) of
        Inl e \<Rightarrow> Inl e
      | Inr maps1 \<Rightarrow>
          (case gatherTopLevel P S maps1 a of
             Inl e \<Rightarrow> Inl e
           | Inr (maps2, a2) \<Rightarrow>
               (case gatherBoltFiles P maps2 a2 (readObjectStoreAll S ''boltFiles'') of
                  Inl e \<Rightarrow> Inl e
                | Inr (maps3, a3) \<Rightarrow>
                    (case gatherFromWorkbench P S maps3 a3 of
                       (maps4, a4) \<Rightarrow> Inr (dedupeMaps maps4, a4)))))"

section \<open>The world around one click\<close>

text \<open>
  What the component reads from its environment while it handles one click:
  \<^item> \<open>clock n\<close> is the value of the \<open>n\<close>-th call of \<^verbatim>\<open>Date.now()\<close>, counted from 0;
  \<^item> \<open>storage n\<close> is the state of the browser at the \<open>n\<close>-th sweep, counted from 0;
  \<^item> the two answers are what the two \<^verbatim>\<open>prompt\<close> dialogs return (\<open>None\<close> for
    \<^verbatim>\<open>null\<close>; the default text a dialog offers is not modelled);
  \<^item> \<open>fetch_result\<close> is the outcome of the upload request: a rejection or a response.

  The run state counts the clock readings and the sweeps made so far, holds the next
  free object address and lists the sleeps made so far, each with its duration. Times
  are whole milliseconds.
\<close>

record response =
  ok :: bool
  status_code :: nat

record upload_request =
  url :: string
  projectId :: "string option"
  projectName :: "string option"
  framework :: string
  template :: string
  files :: "file_entry list"

record world =
  clock :: "nat \<Rightarrow> int"
  storage :: "nat \<Rightarrow> stores"
  answer_project_id :: "string option"
  answer_project_name :: "string option"
  fetch_result :: "upload_request \<Rightarrow> error + response"

record run_state =
  ticks :: nat
  sweeps :: nat
  next_addr :: nat
  slept :: "int list"

text \<open>One call of \<open>gatherFilesMaps\<close> in the world.\<close>

definition sweep :: "platform \<Rightarrow> world \<Rightarrow> run_state \<Rightarrow> error + (jsval list \<times> run_state)" where
  "sweep P W st =
     (case gatherFilesMaps P (storage W (sweeps st)) (next_addr st) of
        Inl e \<Rightarrow> Inl e
      | Inr (maps, a) \<Rightarrow> Inr (maps, st\<lparr>sweeps := Suc (sweeps st), next_addr := a\<rparr>))"

section \<open>The poll loop\<close>

text \<open>\<open>targetKeys\<close>: a copy of the created paths, then every root file pushed onto it.\<close>

definition targetKeysOf :: "string list \<Rightarrow> string list" where
  "targetKeysOf createdPaths = createdPaths @ PREFERRED_ROOT_FILES"

text \<open>\<^verbatim>\<open>targetKeys.some(t => keys.includes(t) || keys.includes(t.replace(/^\//, '')))\<close>\<close>

definition hasTargetKey :: "string list \<Rightarrow> jsval \<Rightarrow> bool" where
  "hasTargetKey targetKeys m =
     (let keys = own_keys m
      in list_ex (\<lambda>t. t \<in> set keys \<or> stripLeadingSlash t \<in> set keys) targetKeys)"

text \<open>
  The \<^verbatim>\<open>while\<close> loop and the statements after it. Each round reads the clock once.
  The first argument bounds the number of clock readings the model follows: \<open>None\<close>
  means that the loop has not returned within so many readings. A result
  \<open>Some (Inl e)\<close> is an exception thrown by a sweep, \<open>Some (Inr (r, st))\<close> is the
  returned value \<open>r\<close> (\<open>None\<close> for \<^verbatim>\<open>null\<close>) and the run state at the return.
\<close>

fun waitLoop :: "nat \<Rightarrow> platform \<Rightarrow> world \<Rightarrow> string list \<Rightarrow> int \<Rightarrow> int \<Rightarrow> int \<Rightarrow> run_state
    \<Rightarrow> (error + (jsval option \<times> run_state)) option" where
  "waitLoop 0 P W targetKeys start timeoutMs intervalMs st = None"
| "waitLoop (Suc fuel) P W targetKeys start timeoutMs intervalMs st =
     (let now = clock W (ticks st); st1 = st\<lparr>ticks := Suc (ticks st)\<rparr>
      in if now - start < timeoutMs then
           (case sweep P W st1 of
              Inl e \<Rightarrow> Some (Inl e)
            | Inr (maps, st2) \<Rightarrow>
                (case find (hasTargetKey targetKeys) maps of
                   Some m \<Rightarrow> Some (Inr (Some m, st2))
                 | None \<Rightarrow>
                     if maps \<noteq> [] \<and> length targetKeys = 0 then Some (Inr (Some (hd maps), st2))
                     else waitLoop fuel P W targetKeys start timeoutMs intervalMs
                            (st2\<lparr>slept := slept st2 @ [intervalMs]\<rparr>)))
         else
           (case sweep P W st1 of
              Inl e \<Rightarrow> Some (Inl e)
            | Inr (maps, st2) \<Rightarrow>
                Some (Inr (case maps of [] \<Rightarrow> None | m # ms \<Rightarrow> Some m, st2))))"

declare waitLoop.simps [simp del]

definition waitAndCollectFilesMap :: "nat \<Rightarrow> platform \<Rightarrow> world \<Rightarrow> string list \<Rightarrow> int \<Rightarrow> int \<Rightarrow> run_state
    \<Rightarrow> (error + (jsval option \<times> run_state)) option" where
  "waitAndCollectFilesMap fuel P W createdPaths timeoutMs intervalMs st =
     (let targetKeys = targetKeysOf createdPaths;
          start = clock W (ticks st)
      in waitLoop fuel P W targetKeys start timeoutMs intervalMs (st\<lparr>ticks := Suc (ticks st)\<rparr>))"

section \<open>Handling a click\<close>

text \<open>The component's properties that the handler reads, and the backend address it was
  built with.\<close>

record props =
  createdFilePaths :: "string list"
  defaultFramework :: string
  waitTimeoutMs :: int
  waitIntervalMs :: int
  backendUrl :: string

text \<open>
  The status line, by its text:
  \<^item> \<open>Looking\<close>: \<^verbatim>\<open>Looking for generated files...\<close>
  \<^item> \<open>NoSnapshot\<close>: \<^verbatim>\<open>No snapshot / workspace files found.\<close>
  \<^item> \<open>Selecting\<close>: \<^verbatim>\<open>Selecting generated files...\<close>
  \<^item> \<open>NoMatch\<close>: \<^verbatim>\<open>No files matched selection criteria.\<close>
  \<^item> \<open>Uploading n\<close>: \<^verbatim>\<open>Uploading n files...\<close>
  \<^item> \<open>UploadFailed s\<close>: \<^verbatim>\<open>Upload failed: s\<close>
  \<^item> \<open>UploadComplete n\<close>: \<^verbatim>\<open>Upload complete (n).\<close>
  \<^item> \<open>ErrorCheckConsole\<close>: the message of the \<^verbatim>\<open>catch\<close> block.
\<close>

datatype status =
    Looking | NoSnapshot | Selecting | NoMatch
  | Uploading nat | UploadFailed nat | UploadComplete nat | ErrorCheckConsole

text \<open>What the handler does to the outside, in order.\<close>

datatype event =
    SetRunning bool
  | SetStatus status
  | PromptProjectId
  | PromptProjectName
  | Fetch upload_request
  | ConsoleError
  | ConsoleLog

fun isFetch :: "event \<Rightarrow> bool" where
  "isFetch (Fetch r) = True"
| "isFetch e = False"

text \<open>\<^verbatim>\<open>(createdFilePaths || []).map(p => (p && p.startsWith('/') ? p : (p ? `/${p}` : p))).filter(Boolean)\<close>\<close>

definition createdOf :: "string list \<Rightarrow> string list" where
  "createdOf paths =
     filter (\<lambda>p. p \<noteq> [])
       (map (\<lambda>p. if p \<noteq> [] \<and> startsWith p ''/'' then p else if p \<noteq> [] then ''/'' @ p else p) paths)"

text \<open>The loop that drops entries whose path was seen before; the state is the pair of
  \<open>seen\<close> and \<open>out\<close>.\<close>

definition dedupeFilesStep :: "string list \<times> file_entry list \<Rightarrow> file_entry \<Rightarrow> string list \<times> file_entry list" where
  "dedupeFilesStep st f =
     (if path f \<notin> set (fst st) then (fst st @ [path f], snd st @ [f]) else st)"

definition dedupeFiles :: "file_entry list \<Rightarrow> file_entry list" where
  "dedupeFiles fs = snd (foldl dedupeFilesStep ([], []) fs)"

text \<open>\<^verbatim>\<open>prompt(...) || undefined\<close>: \<^verbatim>\<open>null\<close> and the empty string give \<^verbatim>\<open>undefined\<close>.\<close>

definition answerOrUndefined :: "string option \<Rightarrow> string option" where
  "answerOrUndefined a = (case a of None \<Rightarrow> None | Some s \<Rightarrow> if s = [] then None else Some s)"

text \<open>The handler from the test \<^verbatim>\<open>if (!files || files.length === 0)\<close> on, the
  \<^verbatim>\<open>catch\<close> and \<^verbatim>\<open>finally\<close> blocks included.\<close>

definition uploadSelected :: "world \<Rightarrow> props \<Rightarrow> file_entry list \<Rightarrow> event list" where
  "uploadSelected W pr selected =
     (if selected = [] then [SetStatus NoMatch, SetRunning False, SetRunning False]
      else
        let out = dedupeFiles selected;
            request =
              \<lparr>url = backendUrl pr @ ''/api/sync/files'',
               projectId = answerOrUndefined (answer_project_id W),
               projectName = answerOrUndefined (answer_project_name W),
               framework = defaultFramework pr,
               template = ''bolt-import'',
               files = out\<rparr>
        in [SetStatus (Uploading (length out)), PromptProjectId, PromptProjectName, Fetch request]
           @ (case fetch_result W request of
                Inl e \<Rightarrow> [ConsoleError, SetStatus ErrorCheckConsole, SetRunning False]
              | Inr resp \<Rightarrow>
                  if \<not> ok resp
                  then [ConsoleError, SetStatus (UploadFailed (status_code resp)), SetRunning False]
                  else [SetStatus (UploadComplete (length out)), ConsoleLog, SetRunning False]))"

text \<open>\<^verbatim>\<open>const merged = {}; for (const m of allMaps) Object.assign(merged, m);\<close> on
  \<open>merged\<close> as an object under construction; the result is the list of own properties
  of \<open>merged\<close>, or the exception that an assignment has thrown.\<close>

fun mergeInto :: "platform \<Rightarrow> (string \<times> jsval) list \<times> proto \<Rightarrow> jsval list
    \<Rightarrow> error + (string \<times> jsval) list \<times> proto" where
  "mergeInto P merged [] = Inr merged"
| "mergeInto P merged (m # ms) =
     (case object_assign P merged m of
        Inl e \<Rightarrow> Inl e
      | Inr merged1 \<Rightarrow> mergeInto P merged1 ms)"

definition mergedProps :: "platform \<Rightarrow> jsval list \<Rightarrow> error + (string \<times> jsval) list" where
  "mergedProps P allMaps =
     (case mergeInto P ([], StdProto) allMaps of Inl e \<Rightarrow> Inl e | Inr ob \<Rightarrow> Inr (fst ob))"

definition handleClick :: "nat \<Rightarrow> platform \<Rightarrow> world \<Rightarrow> props \<Rightarrow> run_state \<Rightarrow> event list option" where
  "handleClick fuel P W pr st =
     (let created = createdOf (createdFilePaths pr)
      in case waitAndCollectFilesMap fuel P W created (waitTimeoutMs pr) (waitIntervalMs pr) st of
           None \<Rightarrow> None
         | Some (Inl e) \<Rightarrow>
             Some [SetRunning True, SetStatus Looking,
                   ConsoleError, SetStatus ErrorCheckConsole, SetRunning False]
         | Some (Inr (None, st1)) \<Rightarrow>
             Some [SetRunning True, SetStatus Looking,
                   SetStatus NoSnapshot, SetRunning False, SetRunning False]
         | Some (Inr (Some filesMap, st1)) \<Rightarrow>
             (let selected = chooseFilesFromMap P filesMap created
              in if length selected < 5 then
                   (case sweep P W st1 of
                      Inl e \<Rightarrow>
                        Some [SetRunning True, SetStatus Looking, SetStatus Selecting,
                              ConsoleError, SetStatus ErrorCheckConsole, SetRunning False]
                    | Inr (allMaps, st2) \<Rightarrow>
                        (case mergedProps P allMaps of
                           Inl e \<Rightarrow>
                             Some [SetRunning True, SetStatus Looking, SetStatus Selecting,
                                   ConsoleError, SetStatus ErrorCheckConsole, SetRunning False]
                         | Inr mergedKvs \<Rightarrow>
                             (let merged = JObject (next_addr st2) (Plain mergedKvs)
                              in Some ([SetRunning True, SetStatus Looking, SetStatus Selecting]
                                       @ uploadSelected W pr
                                           (chooseFilesFromMap P merged created)))))
                 else Some ([SetRunning True, SetStatus Looking, SetStatus Selecting]
                            @ uploadSelected W pr selected)))"

section \<open>Reference notions\<close>

subsection \<open>For the selection tiers\<close>

text \<open>The list without its repeated elements, each kept at its first occurrence.\<close>

fun firstOcc :: "'a list \<Rightarrow> 'a list" where
  "firstOcc [] = []"
| "firstOcc (x # xs) = x # firstOcc (filter (\<lambda>y. y \<noteq> x) xs)"

text \<open>Every spelling of every created path, in the order the two nested loops of tier 1
  visit them.\<close>

definition createdSpellings :: "string list \<Rightarrow> string list" where
  "createdSpellings createdPaths = concat (map keyVariants createdPaths)"

text \<open>The condition under which the two inner loops of tier 2 add the key \<open>k\<close>: some
  prefix matches or some root file matches.\<close>

definition tier2Match :: "string \<Rightarrow> bool" where
  "tier2Match k =
     (list_ex (prefixMatch k) PREFERRED_PREFIXES \<or> list_ex (rootMatch k) PREFERRED_ROOT_FILES)"

subsection \<open>For the deduplication\<close>


section \<open>Concrete inputs\<close>

subsection \<open>A platform\<close>

text \<open>A fixed choice of the platform functions, for the examples below.\<close>

definition demo_platform :: platform where
  "demo_platform =
     \<lparr>btoa_bytes = (\<lambda>bs. ''QUJD''), json_stringify = (\<lambda>v. JStr ''{}''),
      to_string = (\<lambda>v. ''0''),
      binary_inherited =
        (\<lambda>u k. if k = ''__proto__'' then ProtoSetter
               else if k = ''byteLength'' then ReadOnly else NotFound)\<rparr>"

subsection \<open>Files maps\<close>

text \<open>A small files map \<^verbatim>\<open>{"a": "x", "src/b": {content: "y"}, "notes": 7}\<close>.\<close>

definition small_map :: jsval where
  "small_map =
     JObject 0 (Plain
       [(''a'', JStr ''x''),
        (''src/b'', JObject 1 (Plain [(''content'', JStr ''y'')])),
        (''notes'', JNum 7)])"

text \<open>A files map with 6000 keys \<^verbatim>\<open>z\<close>, \<^verbatim>\<open>zz\<close>, \<^verbatim>\<open>zzz\<close>, ... that no rule of the
  selection matches.\<close>

definition zkey :: "nat \<Rightarrow> string" where
  "zkey n = replicate (Suc n) CHR ''z''"

definition big_map :: jsval where
  "big_map = JObject 0 (Plain (map (\<lambda>n. (zkey n, JStr ''x'')) [0..<6000]))"

subsection \<open>Candidates\<close>





subsection \<open>Browsers and worlds\<close>

text \<open>A browser whose snapshot store holds one record
  \<^verbatim>\<open>{files: {"/home/project/src/App.tsx": "x"}}\<close> and nothing else.\<close>

definition app_files :: jsval where
  "app_files = JObject 2 (Plain [(''/home/project/src/App.tsx'', JStr ''x'')])"

definition one_snapshot :: stores where
  "one_snapshot =
     \<lparr>boltHistory = Some [''snapshots'' \<mapsto> [JObject 1 (Plain [(''files'', app_files)])]],
      g_workbench_dunder = JUndefined, g_workbenchStore = JUndefined, g_workbench = JUndefined\<rparr>"

text \<open>A browser with an empty database and no workbench global.\<close>

definition no_stores :: stores where
  "no_stores =
     \<lparr>boltHistory = Some Map.empty,
      g_workbench_dunder = JUndefined, g_workbenchStore = JUndefined, g_workbench = JUndefined\<rparr>"

text \<open>A clock that starts at 0 and has advanced by 350 ms at every reading after the
  first loop test: the readings 0 and 1 give 0, reading \<open>n + 1\<close> gives \<open>350 n\<close>. This is
  the component polling every 350 ms, with sweeps that take no time.\<close>

definition steady_clock :: "nat \<Rightarrow> int" where
  "steady_clock n = 350 * int (n - 1)"

definition accepting_fetch :: "upload_request \<Rightarrow> error + response" where
  "accepting_fetch r = Inr \<lparr>ok = True, status_code = 200\<rparr>"

definition snapshot_world :: world where
  "snapshot_world =
     \<lparr>clock = steady_clock, storage = (\<lambda>n. one_snapshot),
      answer_project_id = None, answer_project_name = Some ''demo'',
      fetch_result = accepting_fetch\<rparr>"

definition empty_world :: world where
  "empty_world =
     \<lparr>clock = steady_clock, storage = (\<lambda>n. no_stores),
      answer_project_id = None, answer_project_name = Some ''demo'',
      fetch_result = accepting_fetch\<rparr>"

definition initial_state :: run_state where
  "initial_state = \<lparr>ticks = 0, sweeps = 0, next_addr = 100, slept = []\<rparr>"

definition default_props :: props where
  "default_props =
     \<lparr>createdFilePaths = [], defaultFramework = ''react'', waitTimeoutMs = 8000,
      waitIntervalMs = 350, backendUrl = ''http://localhost:9999''\<rparr>"









section \<open>Facts about keys\<close>

lemma digit_char_in: "d < 10 \<Longrightarrow> digit_char d \<in> set ''0123456789''"
  unfolding digit_char_def by (rule nth_mem) simp

lemma string_of_nat_digits: "c \<in> set (string_of_nat n) \<Longrightarrow> c \<in> set ''0123456789''"
proof (induction n rule: string_of_nat.induct)
  case (1 n)
  show ?case
  proof (cases "n < 10")
    case True
    with "1.prems" have "c = digit_char n" by (simp add: string_of_nat.simps [of n])
    with True show ?thesis using digit_char_in [of n] by blast
  next
    case False
    with "1.prems" have "c \<in> set (string_of_nat (n div 10)) \<or> c = digit_char (n mod 10)"
      by (auto simp add: string_of_nat.simps [of n])
    moreover have "digit_char (n mod 10) \<in> set ''0123456789''"
      by (rule digit_char_in) simp
    ultimately show ?thesis using "1.IH" [OF False] by blast
  qed
qed

lemma index_keys_digits: "k \<in> set (index_keys n) \<Longrightarrow> set k \<subseteq> set ''0123456789''"
  using string_of_nat_digits by (auto simp: index_keys_def)

lemma startsWith_set: "startsWith s p \<Longrightarrow> set p \<subseteq> set s"
  by (induction s p rule: startsWith.induct) auto

lemma includes_str_set: "includes_str s p \<Longrightarrow> set p \<subseteq> set s"
proof (induction s p rule: includes_str.induct)
  case (1 p)
  then show ?case by simp
next
  case (2 c cs p)
  from "2.prems" have "startsWith (c # cs) p \<or> includes_str cs p" by simp
  then show ?case
  proof
    assume "startsWith (c # cs) p"
    then show ?thesis by (rule startsWith_set)
  next
    assume "includes_str cs p"
    then have "set p \<subseteq> set cs" by (rule "2.IH")
    then show ?thesis by auto
  qed
qed

text \<open>Only a plain object or an array owns a property whose name has a character that
  is not a digit: the other values expose index keys alone.\<close>

lemma own_props_named:
  assumes "(k, v) \<in> set (own_props r)" and "c \<in> set k" and "c \<notin> set ''0123456789''"
  shows "(\<exists>a kvs. r = JObject a (Plain kvs)) \<or> (\<exists>a xs ps. r = JObject a (Arr xs ps))"
proof (cases r)
  case (JStr s)
  with assms(1) have "k \<in> set (index_keys (length s))" by (auto dest: set_zip_leftD)
  with assms(2,3) show ?thesis using index_keys_digits by blast
next
  case (JObject a b)
  show ?thesis
  proof (cases b)
    case (Plain kvs)
    with JObject show ?thesis by simp
  next
    case (Arr xs ps)
    with JObject show ?thesis by simp
  next
    case (Buf bs)
    with JObject assms(1) show ?thesis by simp
  next
    case (View buf es)
    with JObject assms(1) have "k \<in> set (index_keys (length es))" by (auto dest: set_zip_leftD)
    with assms(2,3) show ?thesis using index_keys_digits by blast
  qed
qed (use assms(1) in simp_all)

lemma get_prop_defined:
  assumes "get_prop r k \<noteq> JUndefined"
  shows "(k, get_prop r k) \<in> set (own_props r)"
  using assms by (auto simp: get_prop_def split: option.splits dest: map_of_SomeD)

lemma files_owner:
  assumes "get_prop r ''files'' \<noteq> JUndefined"
  shows "\<exists>a b. r = JObject a b"
  using own_props_named [OF get_prop_defined [OF assms], of "CHR ''f''"] by auto

lemma isFilesObject_defined: "isFilesObject x \<Longrightarrow> x \<noteq> JUndefined"
  by (auto simp: isFilesObject_def)

text \<open>The first test of \<open>extractFilesMap\<close> decides whenever it succeeds.\<close>

lemma extract_files_tier:
  assumes "isFilesObject (get_prop r ''files'')"
  shows "extractFilesMap r = Some (get_prop r ''files'')"
proof -
  from assms have "get_prop r ''files'' \<noteq> JUndefined" by (rule isFilesObject_defined)
  then obtain a b where "r = JObject a b" using files_owner by blast
  with assms show ?thesis by (simp add: extractFilesMap_def)
qed

section \<open>Files-map extraction: results\<close>

text \<open>
  Claim C4. For every record whose \<^verbatim>\<open>files\<close> field is a non-array object (empty or
  not), \<open>extractFilesMap\<close> returns that very object, with its identity, whatever else
  the record holds: a \<^verbatim>\<open>snapshot.files\<close> object or keys that would make the record
  itself pass as a files map do not matter, since the \<^verbatim>\<open>files\<close> test comes first.
\<close>

theorem extractFilesMap_files_first:
  assumes "isFilesObject (get_prop r ''files'')"
  shows "extractFilesMap r = Some (get_prop r ''files'')"
  using assms by (rule extract_files_tier)

text \<open>The record below satisfies all three tiers at once: it has a \<^verbatim>\<open>files\<close> object
  (address 1), a \<^verbatim>\<open>snapshot.files\<close> object (address 3) and a first key under
  \<^verbatim>\<open>/home/project\<close>. The object at address 1 is returned.\<close>

theorem extractFilesMap_files_first_witness:
  "extractFilesMap
     (JObject 0 (Plain
        [(''/home/project/a.ts'', JStr ''x''),
         (''files'', JObject 1 (Plain [(''a.ts'', JStr ''1'')])),
         (''snapshot'', JObject 2 (Plain [(''files'', JObject 3 (Plain [(''b.ts'', JStr ''2'')]))]))]))
   = Some (JObject 1 (Plain [(''a.ts'', JStr ''1'')]))"
  using extractFilesMap_files_first
    [of "JObject 0 (Plain
        [(''/home/project/a.ts'', JStr ''x''),
         (''files'', JObject 1 (Plain [(''a.ts'', JStr ''1'')])),
         (''snapshot'', JObject 2 (Plain [(''files'', JObject 3 (Plain [(''b.ts'', JStr ''2'')]))]))])"]
  by (simp add: get_prop_def isFilesObject_def)

text \<open>
  Claim C2, as stated, fails in two ways. A record whose \<^verbatim>\<open>files\<close> field is the empty
  object \<^verbatim>\<open>{}\<close> makes \<open>extractFilesMap\<close> return that empty object, which has no key.
  And an array that carries the named property \<^verbatim>\<open>src/a\<close> (the value of
  \<^verbatim>\<open>Object.assign([], {"src/a": "x"})\<close>) is returned itself by the last test, which
  does not ask whether the record is an array.
\<close>

theorem extractFilesMap_empty_files_counterexample:
  "extractFilesMap (JObject 0 (Plain [(''files'', JObject 1 (Plain []))]))
     = Some (JObject 1 (Plain []))
   \<and> own_keys (JObject 1 (Plain [])) = []
   \<and> extractFilesMap (JObject 2 (Arr [] [(''src/a'', JStr ''x'')]))
     = Some (JObject 2 (Arr [] [(''src/a'', JStr ''x'')]))
   \<and> isArray (JObject 2 (Arr [] [(''src/a'', JStr ''x'')]))"
  by (simp add: extractFilesMap_def get_prop_def isFilesObject_def own_keys_def
      looksLikeProjectKey_def index_keys_def)

text \<open>
  Claim C2, amended. For every input record, \<open>extractFilesMap\<close> returns either no match
  or an object (a value that is not \<^verbatim>\<open>null\<close> and whose \<^verbatim>\<open>typeof\<close> is
  \<^verbatim>\<open>object\<close>), which is one of three: the record's \<^verbatim>\<open>files\<close> value, then not an
  array; the record's \<^verbatim>\<open>snapshot.files\<close> value, then not an array; or the record
  itself, then with a non-empty key set whose first key passes the project-key test (the
  record itself may be an array). A \<^verbatim>\<open>files\<close> value that is a non-array object is
  returned as it is, whatever its keys, also with zero keys; and so is such a
  \<^verbatim>\<open>snapshot.files\<close> value of an object record whose \<^verbatim>\<open>files\<close> value is not a
  non-array object.
\<close>

theorem extractFilesMap_result:
  "(extractFilesMap r = Some v \<longrightarrow>
      truthy v \<and> typeof v = TObject
      \<and> ((v = get_prop r ''files'' \<and> \<not> isArray v)
          \<or> (v = get_prop (get_prop r ''snapshot'') ''files'' \<and> \<not> isArray v)
          \<or> (v = r \<and> own_keys v \<noteq> [] \<and> looksLikeProjectKey (hd (own_keys v)))))
   \<and> (isFilesObject (get_prop r ''files'') \<longrightarrow> extractFilesMap r = Some (get_prop r ''files''))
   \<and> (truthy r \<and> typeof r = TObject \<and> \<not> isFilesObject (get_prop r ''files'')
        \<and> truthy (get_prop r ''snapshot'')
        \<and> isFilesObject (get_prop (get_prop r ''snapshot'') ''files'')
      \<longrightarrow> extractFilesMap r = Some (get_prop (get_prop r ''snapshot'') ''files''))"
proof -
  have shape: "extractFilesMap r = Some v \<longrightarrow>
      truthy v \<and> typeof v = TObject
      \<and> ((v = get_prop r ''files'' \<and> \<not> isArray v)
          \<or> (v = get_prop (get_prop r ''snapshot'') ''files'' \<and> \<not> isArray v)
          \<or> (v = r \<and> own_keys v \<noteq> [] \<and> looksLikeProjectKey (hd (own_keys v))))"
  proof
    assume res: "extractFilesMap r = Some v"
    show "truthy v \<and> typeof v = TObject
        \<and> ((v = get_prop r ''files'' \<and> \<not> isArray v)
            \<or> (v = get_prop (get_prop r ''snapshot'') ''files'' \<and> \<not> isArray v)
            \<or> (v = r \<and> own_keys v \<noteq> [] \<and> looksLikeProjectKey (hd (own_keys v))))"
    proof (cases "isFilesObject (get_prop r ''files'')")
      case True
      with res show ?thesis by (auto simp: extractFilesMap_def isFilesObject_def split: if_splits)
    next
      case nofiles: False
      show ?thesis
      proof (cases "truthy (get_prop r ''snapshot'')
                    \<and> isFilesObject (get_prop (get_prop r ''snapshot'') ''files'')")
        case True
        with res nofiles show ?thesis
          by (auto simp: extractFilesMap_def isFilesObject_def split: if_splits)
      next
        case False
        with res nofiles obtain k0 ks where
          "truthy r" "typeof r = TObject" "own_keys r = k0 # ks" "looksLikeProjectKey k0" "v = r"
          by (auto simp: extractFilesMap_def split: if_splits list.splits)
        then show ?thesis by simp
      qed
    qed
  qed
  have tier1: "isFilesObject (get_prop r ''files'')
      \<longrightarrow> extractFilesMap r = Some (get_prop r ''files'')"
    using extract_files_tier by blast
  have tier2: "truthy r \<and> typeof r = TObject \<and> \<not> isFilesObject (get_prop r ''files'')
        \<and> truthy (get_prop r ''snapshot'')
        \<and> isFilesObject (get_prop (get_prop r ''snapshot'') ''files'')
      \<longrightarrow> extractFilesMap r = Some (get_prop (get_prop r ''snapshot'') ''files'')"
    by (simp add: extractFilesMap_def)
  show ?thesis by (rule conjI [OF shape conjI [OF tier1 tier2]])
qed

text \<open>The three inputs: an array with a named property, returned itself; a record with
  an empty \<^verbatim>\<open>files\<close> object; a record with an empty \<^verbatim>\<open>snapshot.files\<close> object.\<close>

theorem extractFilesMap_result_witness:
  "truthy (JObject 2 (Arr [] [(''src/a'', JStr ''x'')]))
   \<and> own_keys (JObject 2 (Arr [] [(''src/a'', JStr ''x'')])) \<noteq> []
   \<and> extractFilesMap (JObject 0 (Plain [(''files'', JObject 1 (Plain []))]))
       = Some (JObject 1 (Plain []))
   \<and> extractFilesMap
         (JObject 3 (Plain [(''snapshot'', JObject 4 (Plain [(''files'', JObject 5 (Plain []))]))]))
       = Some (JObject 5 (Plain []))"
proof -
  have "extractFilesMap (JObject 2 (Arr [] [(''src/a'', JStr ''x'')]))
          = Some (JObject 2 (Arr [] [(''src/a'', JStr ''x'')]))"
    by (simp add: extractFilesMap_def get_prop_def isFilesObject_def own_keys_def
        looksLikeProjectKey_def index_keys_def)
  with extractFilesMap_result
    [of "JObject 2 (Arr [] [(''src/a'', JStr ''x'')])" "JObject 2 (Arr [] [(''src/a'', JStr ''x'')])"]
  have a: "truthy (JObject 2 (Arr [] [(''src/a'', JStr ''x'')]))
      \<and> own_keys (JObject 2 (Arr [] [(''src/a'', JStr ''x'')])) \<noteq> []"
    by (simp add: own_keys_def index_keys_def)
  from extractFilesMap_result
    [of "JObject 0 (Plain [(''files'', JObject 1 (Plain []))])" JNull]
  have b: "extractFilesMap (JObject 0 (Plain [(''files'', JObject 1 (Plain []))]))
       = Some (JObject 1 (Plain []))"
    by (simp add: get_prop_def isFilesObject_def)
  from extractFilesMap_result
    [of "JObject 3 (Plain [(''snapshot'', JObject 4 (Plain [(''files'', JObject 5 (Plain []))]))])"
      JNull]
  have c: "extractFilesMap
         (JObject 3 (Plain [(''snapshot'', JObject 4 (Plain [(''files'', JObject 5 (Plain []))]))]))
       = Some (JObject 5 (Plain []))"
    by (simp add: get_prop_def isFilesObject_def)
  from a b c show ?thesis by blast
qed

section \<open>Content normalization: results\<close>

text \<open>
  Claim C9. \<open>normalizeContent\<close> returns a string value unchanged, and returns the string
  \<open>x\<close> for the object \<^verbatim>\<open>{content: "x"}\<close>; the same holds for every value whose
  \<^verbatim>\<open>content\<close> property is the string \<open>x\<close>, whatever other properties it has.
\<close>

theorem normalizeContent_roundtrip:
  "normalizeContent P (JStr s) = JStr s
   \<and> normalizeContent P (JObject a (Plain [(''content'', JStr x)])) = JStr x
   \<and> (get_prop val ''content'' = JStr x \<longrightarrow> normalizeContent P val = JStr x)"
proof (intro conjI impI)
  show "normalizeContent P (JStr s) = JStr s" by (simp add: normalizeContent_def)
  show "normalizeContent P (JObject a (Plain [(''content'', JStr x)])) = JStr x"
    by (simp add: normalizeContent_def get_prop_def coalesce_def)
  assume c: "get_prop val ''content'' = JStr x"
  then have "get_prop val ''content'' \<noteq> JUndefined" by simp
  then have "(''content'', get_prop val ''content'') \<in> set (own_props val)"
    by (rule get_prop_defined)
  from own_props_named [OF this, of "CHR ''c''"]
  consider b kvs where "val = JObject b (Plain kvs)" | b xs ps where "val = JObject b (Arr xs ps)"
    by auto
  then show "normalizeContent P val = JStr x"
  proof cases
    case 1
    with c show ?thesis by (simp add: normalizeContent_def coalesce_def)
  next
    case 2
    with c show ?thesis by (simp add: normalizeContent_def coalesce_def)
  qed
qed

theorem normalizeContent_roundtrip_witness:
  "normalizeContent demo_platform (JStr ''export {}'') = JStr ''export {}''
   \<and> normalizeContent demo_platform (JObject 0 (Plain [(''content'', JStr ''x'')])) = JStr ''x''
   \<and> normalizeContent demo_platform
        (JObject 1 (Plain [(''text'', JStr ''t''), (''content'', JStr ''y''), (''data'', JNum 1)]))
       = JStr ''y''"
  using normalizeContent_roundtrip
    [of demo_platform "''export {}''" 0 "''x''"]
    normalizeContent_roundtrip
    [of demo_platform "''export {}''" 0 "''y''"
      "JObject 1 (Plain [(''text'', JStr ''t''), (''content'', JStr ''y''), (''data'', JNum 1)])"]
  by (simp add: get_prop_def)

section \<open>Selection heuristic: results\<close>

text \<open>Tier 1 collects the first occurrences of the spellings that are keys.\<close>

lemma set_firstOcc: "set (firstOcc xs) = set xs"
  by (induction xs rule: firstOcc.induct) auto

lemma distinct_firstOcc: "distinct (firstOcc xs)"
  by (induction xs rule: firstOcc.induct) (auto simp: set_firstOcc)

lemma firstOcc_distinct_id: "distinct xs \<Longrightarrow> firstOcc xs = xs"
proof (induction xs)
  case Nil
  then show ?case by simp
next
  case (Cons x xs)
  then have "filter (\<lambda>y. y \<noteq> x) xs = xs" by (auto intro: filter_True)
  with Cons show ?case by simp
qed

lemma foldl_pushCreated:
  "foldl (pushCreated keys) acc vs
     = acc @ firstOcc (filter (\<lambda>v. v \<in> set keys \<and> v \<notin> set acc) vs)"
proof (induction vs arbitrary: acc)
  case Nil
  then show ?case by simp
next
  case (Cons v vs)
  show ?case
  proof (cases "v \<in> set keys \<and> v \<notin> set acc")
    case True
    then have step: "pushCreated keys acc v = acc @ [v]"
      by (simp add: pushCreated_def)
    have "filter (\<lambda>w. w \<in> set keys \<and> w \<notin> set (acc @ [v])) vs
            = filter (\<lambda>y. y \<noteq> v) (filter (\<lambda>w. w \<in> set keys \<and> w \<notin> set acc) vs)"
      by (auto intro: filter_cong)
    with True step Cons.IH [of "acc @ [v]"] show ?thesis by simp
  next
    case False
    then have "pushCreated keys acc v = acc"
      by (auto simp add: pushCreated_def)
    with False Cons.IH [of acc] show ?thesis by auto
  qed
qed

lemma foldl_nested_concat:
  "foldl (\<lambda>acc p. foldl f acc (g p)) acc ps = foldl f acc (concat (map g ps))"
  by (induction ps arbitrary: acc) simp_all

lemma normalizedCreatedOf_eq:
  "normalizedCreatedOf keys createdPaths
     = firstOcc (filter (\<lambda>v. v \<in> set keys) (createdSpellings createdPaths))"
  unfolding normalizedCreatedOf_def createdSpellings_def foldl_nested_concat
  by (simp add: foldl_pushCreated)

lemma own_keys_truthy: "own_keys m \<noteq> [] \<Longrightarrow> truthy m"
  by (cases m) (auto simp: own_keys_def)

text \<open>Tier 2 collects the keys that match, in enumeration order.\<close>

lemma set_add_idem: "set_add (set_add c k) k = set_add c k"
  by (simp add: set_add_def)

lemma foldl_cond_add:
  "foldl (\<lambda>c x. if Q x then set_add c k else c) chosen xs
     = (if list_ex Q xs then set_add chosen k else chosen)"
  by (induction xs arbitrary: chosen) (auto simp: set_add_idem)

lemma chosenStep_eq: "chosenStep chosen k = (if tier2Match k then set_add chosen k else chosen)"
  by (auto simp: chosenStep_def tier2Match_def foldl_cond_add set_add_idem)

lemma foldl_chosenStep:
  "distinct (acc @ ks) \<Longrightarrow> foldl chosenStep acc ks = acc @ filter tier2Match ks"
  by (induction ks arbitrary: acc) (auto simp: chosenStep_eq set_add_def)

lemma foldl_chosenStep_set:
  "set (foldl chosenStep acc ks) = set acc \<union> {k \<in> set ks. tier2Match k}"
  by (induction ks arbitrary: acc) (auto simp: chosenStep_eq set_add_def)

lemma foldl_chosenStep_distinct:
  "distinct acc \<Longrightarrow> distinct (foldl chosenStep acc ks)"
  by (induction ks arbitrary: acc) (auto simp: chosenStep_eq set_add_def)

lemma chosenOf_filter: "distinct keys \<Longrightarrow> chosenOf keys = filter tier2Match keys"
  using foldl_chosenStep [of "[]" keys] by (simp add: chosenOf_def)

lemma chosenOf_set: "set (chosenOf keys) = {k \<in> set keys. tier2Match k}"
  by (simp add: chosenOf_def foldl_chosenStep_set)

lemma chosenOf_distinct: "distinct (chosenOf keys)"
  by (simp add: chosenOf_def foldl_chosenStep_distinct)

lemma normalizedCreatedOf_keys: "k \<in> set (normalizedCreatedOf keys cp) \<Longrightarrow> k \<in> set keys"
  by (simp add: normalizedCreatedOf_eq set_firstOcc)

lemma normalizedCreatedOf_nonempty:
  "normalizedCreatedOf keys cp \<noteq> [] \<longleftrightarrow> (\<exists>p \<in> set cp. \<exists>v \<in> set (keyVariants p). v \<in> set keys)"
proof -
  have "normalizedCreatedOf keys cp \<noteq> [] \<longleftrightarrow> set (normalizedCreatedOf keys cp) \<noteq> {}"
    by simp
  also have "\<dots> \<longleftrightarrow> (\<exists>v \<in> set (createdSpellings cp). v \<in> set keys)"
    by (auto simp: normalizedCreatedOf_eq set_firstOcc)
  also have "\<dots> \<longleftrightarrow> (\<exists>p \<in> set cp. \<exists>v \<in> set (keyVariants p). v \<in> set keys)"
    by (auto simp: createdSpellings_def)
  finally show ?thesis .
qed






text \<open>Every result of the selection is the entry list of some keys of the map.\<close>

lemma choose_shape:
  "\<exists>ks. chooseFilesFromMap P m cp = map (entryOf P m) ks \<and> set ks \<subseteq> set (own_keys m)
        \<and> (distinct (own_keys m) \<longrightarrow> distinct ks)"
proof (cases "truthy m")
  case False
  then have "chooseFilesFromMap P m cp = map (entryOf P m) []"
    by (simp add: chooseFilesFromMap_def)
  then show ?thesis by (intro exI [of _ "[]"]) simp
next
  case True
  let ?keys = "own_keys m"
  consider (t1) "normalizedCreatedOf ?keys cp \<noteq> []"
    | (t2) "normalizedCreatedOf ?keys cp = []" "chosenOf ?keys \<noteq> []"
    | (t3) "normalizedCreatedOf ?keys cp = []" "chosenOf ?keys = []" "filter fallbackPattern ?keys \<noteq> []"
    | (t4) "normalizedCreatedOf ?keys cp = []" "chosenOf ?keys = []" "filter fallbackPattern ?keys = []"
    by blast
  then show ?thesis
  proof cases
    case t1
    with True have "chooseFilesFromMap P m cp = map (entryOf P m) (normalizedCreatedOf ?keys cp)"
      by (simp add: chooseFilesFromMap_def Let_def)
    moreover have "set (normalizedCreatedOf ?keys cp) \<subseteq> set ?keys"
      using normalizedCreatedOf_keys by blast
    moreover have "distinct (normalizedCreatedOf ?keys cp)"
      by (simp add: normalizedCreatedOf_eq distinct_firstOcc)
    ultimately show ?thesis by blast
  next
    case t2
    with True have "chooseFilesFromMap P m cp = map (entryOf P m) (chosenOf ?keys)"
      by (simp add: chooseFilesFromMap_def Let_def)
    moreover have "set (chosenOf ?keys) \<subseteq> set ?keys" by (auto simp: chosenOf_set)
    moreover have "distinct (chosenOf ?keys)" by (rule chosenOf_distinct)
    ultimately show ?thesis by blast
  next
    case t3
    with True have "chooseFilesFromMap P m cp = map (entryOf P m) (filter fallbackPattern ?keys)"
      by (simp add: chooseFilesFromMap_def Let_def)
    moreover have "set (filter fallbackPattern ?keys) \<subseteq> set ?keys" by auto
    moreover have "distinct ?keys \<longrightarrow> distinct (filter fallbackPattern ?keys)" by simp
    ultimately show ?thesis by blast
  next
    case t4
    with True have "chooseFilesFromMap P m cp = map (entryOf P m) (take 5000 ?keys)"
      by (simp add: chooseFilesFromMap_def Let_def)
    moreover have "set (take 5000 ?keys) \<subseteq> set ?keys" by (rule set_take_subset)
    moreover have "distinct ?keys \<longrightarrow> distinct (take 5000 ?keys)" by simp
    ultimately show ?thesis by blast
  qed
qed

lemma path_entryOf: "map path (map (entryOf P m) ks) = ks"
  by (induction ks) (simp_all add: entryOf_def)

text \<open>
  Claim C10. For every files map (an object, whose keys are pairwise distinct) and every
  list of preferred paths, each entry of the result has a path that is a key of the
  map and a content that is the normalization of the map's value at that path, and no
  path occurs twice in the result, whichever tier produced it.
\<close>

theorem chooseFilesFromMap_entries:
  assumes "distinct (own_keys m)"
  shows "(\<forall>e \<in> set (chooseFilesFromMap P m createdPaths).
            path e \<in> set (own_keys m) \<and> content e = normalizeContent P (get_prop m (path e)))
         \<and> distinct (map path (chooseFilesFromMap P m createdPaths))"
proof -
  from choose_shape [of P m createdPaths] assms obtain ks where
    out: "chooseFilesFromMap P m createdPaths = map (entryOf P m) ks"
    and sub: "set ks \<subseteq> set (own_keys m)" and d: "distinct ks"
    by blast
  from out sub have "\<forall>e \<in> set (chooseFilesFromMap P m createdPaths).
            path e \<in> set (own_keys m) \<and> content e = normalizeContent P (get_prop m (path e))"
    by (auto simp: entryOf_def)
  moreover from out d have "distinct (map path (chooseFilesFromMap P m createdPaths))"
    by (simp only: path_entryOf)
  ultimately show ?thesis by blast
qed

theorem chooseFilesFromMap_entries_witness:
  "distinct (own_keys small_map)
   \<and> list_all (\<lambda>e. path e \<in> set (own_keys small_map)
                   \<and> content e = normalizeContent demo_platform (get_prop small_map (path e)))
       (chooseFilesFromMap demo_platform small_map [''zz''])
   \<and> distinct (map path (chooseFilesFromMap demo_platform small_map [''zz'']))"
proof -
  have d: "distinct (own_keys small_map)" by (simp add: small_map_def own_keys_def)
  from chooseFilesFromMap_entries [OF d, of demo_platform "[''zz'']"] d show ?thesis
    by (simp add: list_all_iff)
qed

text \<open>
  Claim C7. For every files map with more than 5000 keys, none of which is a spelling of
  a preferred path, matches a tier-2 prefix or root-file rule, or matches the tier-3
  pattern, the result is the list of entries of the first 5000 keys in enumeration
  order: its paths are exactly those keys, and it has 5000 entries.
\<close>

theorem chooseFilesFromMap_last_resort:
  assumes "5000 < length (own_keys m)"
    and "\<forall>k \<in> set (own_keys m).
           (\<forall>p \<in> set createdPaths. k \<notin> set (keyVariants p))
           \<and> (\<forall>pref \<in> set PREFERRED_PREFIXES. \<not> prefixMatch k pref)
           \<and> (\<forall>root \<in> set PREFERRED_ROOT_FILES. \<not> rootMatch k root)
           \<and> \<not> fallbackPattern k"
  shows "chooseFilesFromMap P m createdPaths = map (entryOf P m) (take 5000 (own_keys m))
         \<and> map path (chooseFilesFromMap P m createdPaths) = take 5000 (own_keys m)
         \<and> length (chooseFilesFromMap P m createdPaths) = 5000"
proof -
  let ?keys = "own_keys m"
  from assms(1) have "?keys \<noteq> []" by auto
  then have t: "truthy m" by (rule own_keys_truthy)
  from assms(2) have n1: "normalizedCreatedOf ?keys createdPaths = []"
    using normalizedCreatedOf_nonempty [of ?keys createdPaths] by blast
  from assms(2) have "\<forall>k \<in> set ?keys. \<not> tier2Match k"
    by (auto simp: tier2Match_def list_ex_iff)
  then have "set (chosenOf ?keys) = {}" by (auto simp: chosenOf_set)
  then have n2: "chosenOf ?keys = []" by simp
  from assms(2) have n3: "filter fallbackPattern ?keys = []" by (auto simp: filter_empty_conv)
  from t n1 n2 n3 have out: "chooseFilesFromMap P m createdPaths = map (entryOf P m) (take 5000 ?keys)"
    by (simp add: chooseFilesFromMap_def Let_def)
  moreover from out have "map path (chooseFilesFromMap P m createdPaths) = take 5000 ?keys"
    by (simp only: path_entryOf)
  moreover from out assms(1) have "length (chooseFilesFromMap P m createdPaths) = 5000"
    by simp
  ultimately show ?thesis by blast
qed

text \<open>The keys of \<open>big_map\<close> consist of the letter \<open>z\<close> alone, and no rule matches such a key.\<close>

lemma own_keys_big_map: "own_keys big_map = map zkey [0..<6000]"
  by (simp only: big_map_def own_keys_def own_props.simps map_map comp_def fst_conv)

lemma in_set_mapD: "k \<in> set (map f xs) \<Longrightarrow> \<exists>n. k = f n"
  by auto

lemma big_map_key: "k \<in> set (own_keys big_map) \<Longrightarrow> \<exists>n. k = zkey n"
  unfolding own_keys_big_map by (rule in_set_mapD)

lemma set_zkey: "set (zkey n) = {CHR ''z''}"
  unfolding zkey_def by (rule set_replicate) simp

lemma subset_singleton_mem: "p \<noteq> [] \<Longrightarrow> set p \<subseteq> {c} \<Longrightarrow> c \<in> set p"
  by (cases p) auto

lemma prefixes_no_z:
  "pref \<in> set PREFERRED_PREFIXES \<Longrightarrow>
     pref \<noteq> [] \<and> stripLeadingSlash pref \<noteq> [] \<and> CHR ''z'' \<notin> set pref
     \<and> CHR ''z'' \<notin> set (stripLeadingSlash pref)"
  unfolding PREFERRED_PREFIXES_def by auto

lemma z_prefixMatch:
  assumes "set k = {CHR ''z''}" and "pref \<in> set PREFERRED_PREFIXES"
  shows "\<not> prefixMatch k pref"
proof
  assume "prefixMatch k pref"
  then consider "set pref \<subseteq> set k" | "set (stripLeadingSlash pref) \<subseteq> set k"
    using startsWith_set unfolding prefixMatch_def by blast
  then show False
  proof cases
    case 1
    with assms(1) have "CHR ''z'' \<in> set pref"
      using subset_singleton_mem [of pref "CHR ''z''"] prefixes_no_z [OF assms(2)] by simp
    with prefixes_no_z [OF assms(2)] show False by simp
  next
    case 2
    with assms(1) have "CHR ''z'' \<in> set (stripLeadingSlash pref)"
      using subset_singleton_mem [of "stripLeadingSlash pref" "CHR ''z''"]
        prefixes_no_z [OF assms(2)] by simp
    with prefixes_no_z [OF assms(2)] show False by simp
  qed
qed

lemma endsWith_set: "endsWith s p \<Longrightarrow> set p \<subseteq> set s"
  using startsWith_set [of "rev s" "rev p"] by (simp add: endsWith_def)

lemma roots_no_z:
  "root \<in> set PREFERRED_ROOT_FILES \<Longrightarrow> root \<noteq> [] \<and> CHR ''z'' \<notin> set root"
  unfolding PREFERRED_ROOT_FILES_def by auto

lemma z_rootMatch:
  assumes "set k = {CHR ''z''}" and "root \<in> set PREFERRED_ROOT_FILES"
  shows "\<not> rootMatch k root"
proof
  assume "rootMatch k root"
  then consider "endsWith k root" | "k = root" | "k = ''/'' @ root"
    unfolding rootMatch_def by blast
  then have "set root \<subseteq> set k"
  proof cases
    case 1
    then show ?thesis by (rule endsWith_set)
  next
    case 2
    then show ?thesis by simp
  next
    case 3
    then show ?thesis by auto
  qed
  with assms(1) have "CHR ''z'' \<in> set root"
    using subset_singleton_mem [of root "CHR ''z''"] roots_no_z [OF assms(2)] by simp
  with roots_no_z [OF assms(2)] show False by simp
qed

lemma z_fallbackPattern:
  assumes "set k = {CHR ''z''}"
  shows "\<not> fallbackPattern k"
proof
  assume "fallbackPattern k"
  then consider "includes_str k ''src/''" | "includes_str k ''public/''"
    | "includes_str k ''index.html''" | "includes_str k ''package.json''"
    | "includes_str k ''vite.config''"
    unfolding fallbackPattern_def by blast
  then show False
  proof cases
    case 1
    from includes_str_set [OF this] assms show ?thesis by simp
  next
    case 2
    from includes_str_set [OF this] assms show ?thesis by simp
  next
    case 3
    from includes_str_set [OF this] assms show ?thesis by simp
  next
    case 4
    from includes_str_set [OF this] assms show ?thesis by simp
  next
    case 5
    from includes_str_set [OF this] assms show ?thesis by simp
  qed
qed

theorem chooseFilesFromMap_last_resort_witness:
  "length (own_keys big_map) = 6000
   \<and> map path (chooseFilesFromMap demo_platform big_map [''/src/App.tsx''])
       = take 5000 (own_keys big_map)
   \<and> length (chooseFilesFromMap demo_platform big_map [''/src/App.tsx'']) = 5000"
proof -
  have len: "length (own_keys big_map) = 6000"
    by (simp only: own_keys_big_map length_map length_upt)
  then have h1: "5000 < length (own_keys big_map)" by simp
  have h2: "\<forall>k \<in> set (own_keys big_map).
           (\<forall>p \<in> set [''/src/App.tsx'']. k \<notin> set (keyVariants p))
           \<and> (\<forall>pref \<in> set PREFERRED_PREFIXES. \<not> prefixMatch k pref)
           \<and> (\<forall>root \<in> set PREFERRED_ROOT_FILES. \<not> rootMatch k root)
           \<and> \<not> fallbackPattern k"
  proof
    fix k assume "k \<in> set (own_keys big_map)"
    then obtain n where "k = zkey n" using big_map_key by blast
    then have z: "set k = {CHR ''z''}" by (simp only: set_zkey)
    then have "CHR ''s'' \<notin> set k" by simp
    then have "k \<noteq> ''/src/App.tsx''" and "k \<noteq> ''src/App.tsx''" by auto
    then have c1: "\<forall>p \<in> set [''/src/App.tsx'']. k \<notin> set (keyVariants p)"
      by (simp add: keyVariants_def)
    have c2: "\<forall>pref \<in> set PREFERRED_PREFIXES. \<not> prefixMatch k pref"
      by (intro ballI z_prefixMatch [OF z])
    have c3: "\<forall>root \<in> set PREFERRED_ROOT_FILES. \<not> rootMatch k root"
      by (intro ballI z_rootMatch [OF z])
    have c4: "\<not> fallbackPattern k" by (rule z_fallbackPattern [OF z])
    show "(\<forall>p \<in> set [''/src/App.tsx'']. k \<notin> set (keyVariants p))
           \<and> (\<forall>pref \<in> set PREFERRED_PREFIXES. \<not> prefixMatch k pref)
           \<and> (\<forall>root \<in> set PREFERRED_ROOT_FILES. \<not> rootMatch k root)
           \<and> \<not> fallbackPattern k"
      by (intro conjI c1 c2 c3 c4)
  qed
  have r: "chooseFilesFromMap demo_platform big_map [''/src/App.tsx'']
             = map (entryOf demo_platform big_map) (take 5000 (own_keys big_map))
           \<and> map path (chooseFilesFromMap demo_platform big_map [''/src/App.tsx''])
               = take 5000 (own_keys big_map)
           \<and> length (chooseFilesFromMap demo_platform big_map [''/src/App.tsx'']) = 5000"
    by (rule chooseFilesFromMap_last_resort [OF h1 h2])
  show ?thesis by (intro conjI len conjunct1 [OF conjunct2 [OF r]] conjunct2 [OF conjunct2 [OF r]])
qed

section \<open>Deduplication: results\<close>













section \<open>The poll loop and the click handler: results\<close>

text \<open>\<open>targetKeys\<close> always holds the root file names, so the test
  \<^verbatim>\<open>targetKeys.length === 0\<close> of the loop never succeeds.\<close>

lemma targetKeysOf_nonempty: "targetKeysOf createdPaths \<noteq> []"
  by (simp add: targetKeysOf_def PREFERRED_ROOT_FILES_def)

text \<open>A round of the loop within the budget in which no candidate has a target key
  ends with the sleep, whatever the candidates are.\<close>

lemma waitLoop_round:
  assumes "clock W (ticks st) - start < timeoutMs"
    and "sweep P W (st\<lparr>ticks := Suc (ticks st)\<rparr>) = Inr (maps, st2)"
    and "find (hasTargetKey (targetKeysOf createdPaths)) maps = None"
  shows "waitLoop (Suc fuel) P W (targetKeysOf createdPaths) start timeoutMs intervalMs st
           = waitLoop fuel P W (targetKeysOf createdPaths) start timeoutMs intervalMs
               (st2\<lparr>slept := slept st2 @ [intervalMs]\<rparr>)"
  using assms targetKeysOf_nonempty [of createdPaths] by (simp add: waitLoop.simps Let_def)

lemma waitLoop_last_chance:
  assumes "\<not> clock W (ticks st) - start < timeoutMs"
    and "sweep P W (st\<lparr>ticks := Suc (ticks st)\<rparr>) = Inr (maps, st2)"
  shows "waitLoop (Suc fuel) P W targetKeys start timeoutMs intervalMs st
           = Some (Inr (case maps of [] \<Rightarrow> None | m # ms \<Rightarrow> Some m, st2))"
  using assms by (simp add: waitLoop.simps Let_def)

lemma gather_one_snapshot: "gatherFilesMaps P one_snapshot a = Inr ([app_files], a)"
  by (simp add: gatherFilesMaps_def getSnapshotsEntries_def readObjectStoreAll_def one_snapshot_def
      snapshotCandidate_def extractFilesMap_def get_prop_def isFilesObject_def app_files_def
      gatherTopLevel_def gatherBoltFiles_def gatherFromWorkbench_def workbenchGlobal_def
      dedupeMaps_def dedupeStep_def)

lemma sweep_snapshot_world:
  "sweep P snapshot_world st = Inr ([app_files], st\<lparr>sweeps := Suc (sweeps st)\<rparr>)"
  by (simp add: sweep_def snapshot_world_def gather_one_snapshot)

lemma app_files_no_target: "find (hasTargetKey (targetKeysOf [])) [app_files] = None"
  by (simp add: hasTargetKey_def targetKeysOf_def PREFERRED_ROOT_FILES_def app_files_def
      own_keys_def)

text \<open>The run state of the poll in \<open>snapshot_world\<close> after \<open>j\<close> rounds.\<close>

lemma snapshot_round:
  assumes "j < 23"
  shows "waitLoop (Suc fuel) P snapshot_world (targetKeysOf []) 0 8000 350
           \<lparr>ticks = Suc j, sweeps = j, next_addr = a, slept = replicate j 350\<rparr>
         = waitLoop fuel P snapshot_world (targetKeysOf []) 0 8000 350
           \<lparr>ticks = Suc (Suc j), sweeps = Suc j, next_addr = a, slept = replicate (Suc j) 350\<rparr>"
proof -
  from assms have "clock snapshot_world (ticks \<lparr>ticks = Suc j, sweeps = j, next_addr = a,
      slept = replicate j 350\<rparr>) - 0 < 8000"
    by (simp add: snapshot_world_def steady_clock_def)
  from waitLoop_round [OF this sweep_snapshot_world app_files_no_target]
  show ?thesis by (simp add: replicate_append_same)
qed

lemma snapshot_rounds:
  "j + k = 23 \<Longrightarrow>
   waitLoop (k + Suc fuel) P snapshot_world (targetKeysOf []) 0 8000 350
       \<lparr>ticks = Suc j, sweeps = j, next_addr = a, slept = replicate j 350\<rparr>
     = waitLoop (Suc fuel) P snapshot_world (targetKeysOf []) 0 8000 350
       \<lparr>ticks = 24, sweeps = 23, next_addr = a, slept = replicate 23 350\<rparr>"
proof (induction k arbitrary: j)
  case 0
  then show ?case by simp
next
  case (Suc k)
  then have "j < 23" and "Suc j + k = 23" by simp_all
  from snapshot_round [OF this(1)] Suc.IH [OF this(2)] show ?case by simp
qed

lemma snapshot_last:
  "waitLoop (Suc fuel) P snapshot_world (targetKeysOf []) 0 8000 350
       \<lparr>ticks = 24, sweeps = 23, next_addr = a, slept = replicate 23 350\<rparr>
     = Some (Inr (Some app_files,
         \<lparr>ticks = 25, sweeps = 24, next_addr = a, slept = replicate 23 350\<rparr>))"
proof -
  have "\<not> clock snapshot_world (ticks \<lparr>ticks = 24, sweeps = 23, next_addr = a,
      slept = replicate 23 350\<rparr>) - 0 < 8000"
    by (simp add: snapshot_world_def steady_clock_def)
  from waitLoop_last_chance [OF this sweep_snapshot_world] show ?thesis by simp
qed

lemma poll_snapshot_world:
  "waitLoop (24 + fuel) P snapshot_world (targetKeysOf []) 0 8000 350
       \<lparr>ticks = 1, sweeps = 0, next_addr = a, slept = []\<rparr>
     = Some (Inr (Some app_files,
         \<lparr>ticks = 25, sweeps = 24, next_addr = a, slept = replicate 23 350\<rparr>))"
proof -
  have "waitLoop (24 + fuel) P snapshot_world (targetKeysOf []) 0 8000 350
       \<lparr>ticks = 1, sweeps = 0, next_addr = a, slept = []\<rparr>
     = waitLoop (23 + Suc fuel) P snapshot_world (targetKeysOf []) 0 8000 350
       \<lparr>ticks = Suc 0, sweeps = 0, next_addr = a, slept = replicate 0 350\<rparr>"
    by simp
  also have "\<dots> = waitLoop (Suc fuel) P snapshot_world (targetKeysOf []) 0 8000 350
       \<lparr>ticks = 24, sweeps = 23, next_addr = a, slept = replicate 23 350\<rparr>"
    by (rule snapshot_rounds) simp
  also have "\<dots> = Some (Inr (Some app_files,
         \<lparr>ticks = 25, sweeps = 24, next_addr = a, slept = replicate 23 350\<rparr>))"
    by (rule snapshot_last)
  finally show ?thesis .
qed

text \<open>
  Claim C1 does not hold of the code. With no preferred path, with the default budget of
  8000 ms and interval of 350 ms, and with a browser whose sweeps yield the one candidate
  \<^verbatim>\<open>{"/home/project/src/App.tsx": "x"}\<close> from the first sweep on, the poll
  loop does not return that candidate in its first round: \<open>targetKeys\<close> holds the nine
  root file names, so the test \<^verbatim>\<open>targetKeys.length === 0\<close> fails, the candidate has
  none of them as a key, and the loop sleeps 23 times, until the clock has passed the
  budget. The candidate is returned only by the read after the loop.
\<close>

theorem waitAndCollectFilesMap_sleeps_out_budget:
  "waitAndCollectFilesMap (24 + fuel) P snapshot_world [] 8000 350
       \<lparr>ticks = 0, sweeps = 0, next_addr = a, slept = []\<rparr>
     = Some (Inr (Some app_files,
         \<lparr>ticks = 25, sweeps = 24, next_addr = a, slept = replicate 23 350\<rparr>))
   \<and> gatherFilesMaps P (storage snapshot_world 0) a = Inr ([app_files], a)"
  using poll_snapshot_world [of fuel P a]
  by (simp add: waitAndCollectFilesMap_def snapshot_world_def steady_clock_def gather_one_snapshot)

theorem waitAndCollectFilesMap_sleeps_out_budget_witness:
  "waitAndCollectFilesMap 24 demo_platform snapshot_world [] 8000 350 initial_state
     = Some (Inr (Some app_files,
         \<lparr>ticks = 25, sweeps = 24, next_addr = 100, slept = replicate 23 350\<rparr>))"
  using waitAndCollectFilesMap_sleeps_out_budget [of 0 demo_platform 100]
  by (simp add: initial_state_def)

text \<open>Sweeps that find nothing.\<close>

lemma sweep_empty:
  assumes "\<forall>k a. \<exists>a'. gatherFilesMaps P (storage W k) a = Inr ([], a')"
  shows "\<exists>a'. sweep P W st = Inr ([], st\<lparr>sweeps := Suc (sweeps st), next_addr := a'\<rparr>)"
proof -
  from assms obtain a' where "gatherFilesMaps P (storage W (sweeps st)) (next_addr st) = Inr ([], a')"
    by blast
  then have "sweep P W st = Inr ([], st\<lparr>sweeps := Suc (sweeps st), next_addr := a'\<rparr>)"
    by (simp add: sweep_def)
  then show ?thesis by blast
qed

lemma waitLoop_no_candidates:
  assumes "\<forall>k a. \<exists>a'. gatherFilesMaps P (storage W k) a = Inr ([], a')"
  shows "j < fuel \<Longrightarrow> timeoutMs \<le> clock W (ticks st + j) - start \<Longrightarrow>
         \<exists>st'. waitLoop fuel P W targetKeys start timeoutMs intervalMs st = Some (Inr (None, st'))"
proof (induction fuel arbitrary: st j)
  case 0
  then show ?case by simp
next
  case (Suc fuel)
  let ?st1 = "st\<lparr>ticks := Suc (ticks st)\<rparr>"
  from sweep_empty [OF assms, of ?st1] obtain a' where
    sw: "sweep P W ?st1 = Inr ([], ?st1\<lparr>sweeps := Suc (sweeps ?st1), next_addr := a'\<rparr>)"
    by blast
  show ?case
  proof (cases "clock W (ticks st) - start < timeoutMs")
    case False
    with sw show ?thesis by (simp add: waitLoop.simps Let_def)
  next
    case True
    with Suc.prems(2) have "j \<noteq> 0" by (cases j) auto
    then obtain j' where j: "j = Suc j'" by (cases j) auto
    let ?st3 = "?st1\<lparr>sweeps := Suc (sweeps ?st1), next_addr := a', slept := slept st @ [intervalMs]\<rparr>"
    from j Suc.prems have "j' < fuel" and "timeoutMs \<le> clock W (ticks ?st3 + j') - start"
      by simp_all
    from Suc.IH [OF this] obtain st' where
      "waitLoop fuel P W targetKeys start timeoutMs intervalMs ?st3 = Some (Inr (None, st'))"
      by blast
    with True sw show ?thesis by (simp add: waitLoop.simps Let_def)
  qed
qed

lemma handleClick_null:
  assumes "waitAndCollectFilesMap fuel P W (createdOf (createdFilePaths pr)) (waitTimeoutMs pr)
             (waitIntervalMs pr) st = Some (Inr (None, st'))"
  shows "handleClick fuel P W pr st
           = Some [SetRunning True, SetStatus Looking, SetStatus NoSnapshot, SetRunning False,
                   SetRunning False]"
  using assms by (simp add: handleClick_def Let_def)

text \<open>
  Claim C8. If the poll loop returns \<^verbatim>\<open>null\<close>, the handler sets the status
  \<^verbatim>\<open>No snapshot / workspace files found.\<close>, stops, and issues no request: its whole
  effect is the five events listed, none of which is a \<^verbatim>\<open>fetch\<close>. And the poll loop
  does return \<^verbatim>\<open>null\<close> when every sweep yields zero candidates and the clock
  reaches the end of the budget within the readings followed.
\<close>

theorem handleClick_no_candidates:
  "(waitAndCollectFilesMap fuel P W (createdOf (createdFilePaths pr)) (waitTimeoutMs pr)
        (waitIntervalMs pr) st = Some (Inr (None, st'))
      \<longrightarrow> handleClick fuel P W pr st
            = Some [SetRunning True, SetStatus Looking, SetStatus NoSnapshot, SetRunning False,
                    SetRunning False])
   \<and> ((\<forall>k a. \<exists>a'. gatherFilesMaps P (storage W k) a = Inr ([], a')) \<and> j < fuel
        \<and> waitTimeoutMs pr \<le> clock W (Suc (ticks st) + j) - clock W (ticks st)
      \<longrightarrow> handleClick fuel P W pr st
            = Some [SetRunning True, SetStatus Looking, SetStatus NoSnapshot, SetRunning False,
                    SetRunning False])
   \<and> list_all (\<lambda>e. \<not> isFetch e)
        [SetRunning True, SetStatus Looking, SetStatus NoSnapshot, SetRunning False,
         SetRunning False]"
proof (intro conjI impI)
  assume "waitAndCollectFilesMap fuel P W (createdOf (createdFilePaths pr)) (waitTimeoutMs pr)
        (waitIntervalMs pr) st = Some (Inr (None, st'))"
  then show "handleClick fuel P W pr st
            = Some [SetRunning True, SetStatus Looking, SetStatus NoSnapshot, SetRunning False,
                    SetRunning False]"
    by (rule handleClick_null)
next
  assume h: "(\<forall>k a. \<exists>a'. gatherFilesMaps P (storage W k) a = Inr ([], a')) \<and> j < fuel
        \<and> waitTimeoutMs pr \<le> clock W (Suc (ticks st) + j) - clock W (ticks st)"
  let ?st0 = "st\<lparr>ticks := Suc (ticks st)\<rparr>"
  from h have "j < fuel" and "waitTimeoutMs pr \<le> clock W (ticks ?st0 + j) - clock W (ticks st)"
    by simp_all
  from waitLoop_no_candidates [OF conjunct1 [OF h] this]
  obtain st'' where
    "waitLoop fuel P W (targetKeysOf (createdOf (createdFilePaths pr))) (clock W (ticks st))
       (waitTimeoutMs pr) (waitIntervalMs pr) ?st0 = Some (Inr (None, st''))"
    by blast
  then have "waitAndCollectFilesMap fuel P W (createdOf (createdFilePaths pr)) (waitTimeoutMs pr)
        (waitIntervalMs pr) st = Some (Inr (None, st''))"
    by (simp add: waitAndCollectFilesMap_def Let_def)
  then show "handleClick fuel P W pr st
            = Some [SetRunning True, SetStatus Looking, SetStatus NoSnapshot, SetRunning False,
                    SetRunning False]"
    by (rule handleClick_null)
next
  show "list_all (\<lambda>e. \<not> isFetch e)
        [SetRunning True, SetStatus Looking, SetStatus NoSnapshot, SetRunning False,
         SetRunning False]"
    by simp
qed

lemma gather_no_stores: "gatherFilesMaps P no_stores a = Inr ([], a)"
  by (simp add: gatherFilesMaps_def getSnapshotsEntries_def readObjectStoreAll_def no_stores_def
      gatherTopLevel_def gatherBoltFiles_def gatherFromWorkbench_def workbenchGlobal_def
      dedupeMaps_def)

theorem handleClick_no_candidates_witness:
  "handleClick 24 demo_platform empty_world default_props initial_state
     = Some [SetRunning True, SetStatus Looking, SetStatus NoSnapshot, SetRunning False,
             SetRunning False]"
proof -
  have "(\<forall>k a. \<exists>a'. gatherFilesMaps demo_platform (storage empty_world k) a = Inr ([], a'))
        \<and> 23 < (24::nat)
        \<and> waitTimeoutMs default_props
            \<le> clock empty_world (Suc (ticks initial_state) + 23)
                - clock empty_world (ticks initial_state)"
    by (simp add: empty_world_def gather_no_stores default_props_def initial_state_def
        steady_clock_def)
  with handleClick_no_candidates
    [of 24 demo_platform empty_world default_props initial_state initial_state 23]
  show ?thesis by blast
qed





























end
